theory Spec2Isabelle
  imports Main "HOL-Library.Extended_Nat"
begin

section \<open>JavaScript values used by the library\<close>

text \<open>
  An \<^verbatim>\<open>Error\<close> object as the library reads it: its \<^verbatim>\<open>name\<close> and its
  \<^verbatim>\<open>message\<close> (the stack is carried along by the source and never inspected).
\<close>

record js_error =
  name :: string
  message :: string

definition Error :: "string \<Rightarrow> js_error" where
  "Error msg = \<lparr>name = ''Error'', message = msg\<rparr>"

text \<open>
  \<^verbatim>\<open>s.split(c)\<close> for a one-character separator: the pieces between the separators,
  one more piece than there are separators (so the empty string gives one empty piece).
\<close>

fun js_split :: "char \<Rightarrow> string \<Rightarrow> string list" where
  "js_split c [] = [[]]"
| "js_split c (x # xs) =
     (if x = c then [] # js_split c xs
      else (case js_split c xs of
              [] \<Rightarrow> [[x]]
            | p # ps \<Rightarrow> (x # p) # ps))"

text \<open>\<^verbatim>\<open>pieces.join(sep)\<close> on an array of strings.\<close>

fun js_join :: "string \<Rightarrow> string list \<Rightarrow> string" where
  "js_join sep [] = []"
| "js_join sep [p] = p"
| "js_join sep (p # q # ps) = p @ sep @ js_join sep (q # ps)"

text \<open>
  \<^verbatim>\<open>strings[i]\<close> as an operand of string concatenation: an index outside the array
  reads \<^verbatim>\<open>undefined\<close>, which \<^verbatim>\<open>+\<close> prints as the nine letters of its name.
\<close>

definition js_at :: "string list \<Rightarrow> nat \<Rightarrow> string" where
  "js_at strings i = (if i < length strings then strings ! i else ''undefined'')"

definition count_char :: "char \<Rightarrow> string \<Rightarrow> nat" where
  "count_char c s = length (filter (\<lambda>x. x = c) s)"

section \<open>The SQL composer (SQLCompiler.compile)\<close>

record ('s, 'v) compiled =
  sql :: 's
  vals :: "'v list"

text \<open>
  The loop \<^verbatim>\<open>for (let i = 0; i < values.length; i++) sql += '?' + strings[i + 1]\<close>,
  with \<open>n\<close> the length of \<^verbatim>\<open>values\<close>.
\<close>

function compile_loop :: "string list \<Rightarrow> nat \<Rightarrow> nat \<Rightarrow> string \<Rightarrow> string" where
  "compile_loop strings n i acc =
     (if i < n then compile_loop strings n (i + 1) (acc @ ''?'' @ js_at strings (i + 1))
      else acc)"
  by pat_completeness auto
termination
  by (relation "measure (\<lambda>(strings, n, i, acc). n - i)") auto

declare compile_loop.simps [simp del]

text \<open>
  \<^verbatim>\<open>compile\<close> of lib/SQLCompiler.js, on an array of fragments. It has no check of the
  two lengths and never throws on arrays.
\<close>

definition compile_lib :: "string list \<Rightarrow> 'v list \<Rightarrow> (string, 'v) compiled" where
  "compile_lib strings vs =
     (if length vs = 0 then \<lparr>sql = js_join [] strings, vals = []\<rparr>
      else \<lparr>sql = compile_loop strings (length vs) 0 (js_at strings 0), vals = vs\<rparr>)"

text \<open>
  The second \<^verbatim>\<open>SQLCompiler.compile\<close> of the repository. Its first argument is a
  string or an array of fragments; a string comes back as a one-element array of
  fragments. The arity check throws
  \<^verbatim>\<open>Error("Error! Query params (N) and provided values (M) are different sized lists! ...")\<close>,
  kept here as \<open>InvalidQuery N M\<close>.
\<close>

datatype strings_arg = Str string | Frags "string list"

datatype sql_text = Text string | Pieces "string list"

datatype compile_error = InvalidQuery nat nat

definition compile_checked ::
  "strings_arg \<Rightarrow> 'v list \<Rightarrow> compile_error + (sql_text, 'v) compiled" where
  "compile_checked strings vs =
     (case strings of
        Str s \<Rightarrow> Inr \<lparr>sql = Pieces [s], vals = []\<rparr>
      | Frags fs \<Rightarrow>
          if int (length vs) \<noteq> int (length fs) - 1
          then Inl (InvalidQuery (length fs) (length vs))
          else if length vs = 0 then Inr \<lparr>sql = Text (js_join [] fs), vals = []\<rparr>
          else Inr \<lparr>sql = Text (compile_loop fs (length vs) 0 (js_at fs 0)),
                    vals = vs\<rparr>)"

section \<open>The application object (lib/DB.js)\<close>

subsection \<open>The constructor\<close>

text \<open>
  A JavaScript argument that may be absent (\<^verbatim>\<open>undefined\<close>), \<^verbatim>\<open>null\<close> or a value. A
  default parameter value replaces \<^verbatim>\<open>undefined\<close> only; the operator \<^verbatim>\<open>??\<close> replaces
  both \<^verbatim>\<open>undefined\<close> and \<^verbatim>\<open>null\<close>.
\<close>

datatype 'a js_arg = Undefined | Null | Val 'a

definition js_default :: "'a \<Rightarrow> 'a js_arg \<Rightarrow> 'a js_arg" where
  "js_default d a = (case a of Undefined \<Rightarrow> Val d | Null \<Rightarrow> Null | Val x \<Rightarrow> Val x)"

definition js_nullish :: "'a js_arg \<Rightarrow> 'a \<Rightarrow> 'a" where
  "js_nullish a d = (case a of Undefined \<Rightarrow> d | Null \<Rightarrow> d | Val x \<Rightarrow> x)"

text \<open>\<^verbatim>\<open>s.replace(pat, rep)\<close> with a string pattern: the first occurrence only.\<close>

fun js_replace :: "string \<Rightarrow> string \<Rightarrow> string \<Rightarrow> string" where
  "js_replace pat rep [] = (if pat = [] then rep else [])"
| "js_replace pat rep (c # cs) =
     (if take (length pat) (c # cs) = pat then rep @ drop (length pat) (c # cs)
      else c # js_replace pat rep cs)"

text \<open>
  The options object of \<^verbatim>\<open>new DB({filename, driver, options, workers})\<close>; the driver's
  own \<^verbatim>\<open>options\<close> are passed through untouched and left out. File name and driver
  are strings when given; \<open>workers_arg\<close> is the field \<^verbatim>\<open>workers\<close>.
\<close>

record db_options =
  filename :: "string option"
  driver :: "string option"
  workers_arg :: "nat js_arg"

text \<open>The argument of \<^verbatim>\<open>new DBDispatcher({workerPath, size, workerData})\<close>.\<close>

record dispatcher_options =
  workerPath :: string
  size :: nat
  workerData_filename :: string

definition getWorkerPath :: "string \<Rightarrow> js_error + string" where
  "getWorkerPath drv =
     (let d = js_replace ''sqlite3'' ''sqlite'' drv in
      if d = ''better-sqlite'' then Inr ''workers/better.worker.js''
      else if d = ''node:sqlite'' then Inr ''workers/db.worker.js''
      else Inl (Error (''Sorry, the provided worker_driver \"'' @ drv @ ''\" is not supported.'')))"

text \<open>
  \<^verbatim>\<open>driver === "better-sqlite" ? 1 : (filename === ':memory:' ? os.availableParallelism() : 2)\<close>,
  with the host's available parallelism as a parameter.
\<close>

definition defaultWorkers :: "nat \<Rightarrow> string \<Rightarrow> string \<Rightarrow> nat" where
  "defaultWorkers availableParallelism drv fname =
     (if drv = ''better-sqlite'' then 1
      else if fname = '':memory:'' then availableParallelism else 2)"

text \<open>
  The constructor up to the call of \<^verbatim>\<open>new DBDispatcher\<close>: the destructuring defaults
  (\<^verbatim>\<open>workers = 1\<close> among them; the whole object defaults to the same values when the
  constructor has no argument), \<^verbatim>\<open>size = workers ?? defaultWorkers\<close>, and the worker
  path, whose lookup throws for an unsupported driver.
\<close>

definition DB_constructor :: "nat \<Rightarrow> db_options option \<Rightarrow> js_error + dispatcher_options" where
  "DB_constructor availableParallelism arg =
     (let opts = (case arg of
                    None \<Rightarrow> \<lparr>filename = Some '':memory:'', driver = Some ''node:sqlite'',
                             workers_arg = Val 1\<rparr>
                  | Some given \<Rightarrow> given);
          fname = (case filename opts of None \<Rightarrow> '':memory:'' | Some f \<Rightarrow> f);
          drv = (case driver opts of None \<Rightarrow> ''node:sqlite'' | Some d \<Rightarrow> d);
          wrk = js_default 1 (workers_arg opts);
          sz = js_nullish wrk (defaultWorkers availableParallelism drv fname)
      in case getWorkerPath drv of
           Inl e \<Rightarrow> Inl e
         | Inr p \<Rightarrow> Inr \<lparr>workerPath = p, size = sz, workerData_filename = fname\<rparr>)"

subsection \<open>Transactions\<close>

text \<open>
  What an \<^verbatim>\<open>await\<close> observes of a promise: it fulfils with a value, it rejects with
  an error, or it never settles and the awaiting function never continues.
\<close>

datatype ('e, 'a) awaited = Fulfilled 'a | Rejected 'e | Never

text \<open>
  The jobs \<^verbatim>\<open>transaction\<close> submits carry a method only.
\<close>

datatype control = beginTransaction | commit | rollback

text \<open>
  The application object: its private flag and the dispatcher behind it. The
  dispatcher is seen through the jobs submitted so far (\<open>sent\<close>, oldest first) and
  through how the promise of each submission settles, a function of the earlier jobs
  and the new one (\<open>settles\<close>). \<open>'j\<close> is the type of jobs, with the control jobs
  embedded by \<open>ctl\<close>.
\<close>

record ('j, 'e, 'r) db =
  inTransaction :: bool
  sent :: "'j list"
  settles :: "'j list \<Rightarrow> 'j \<Rightarrow> ('e, 'r) awaited"
  ctl :: "control \<Rightarrow> 'j"

definition submit_db :: "'j \<Rightarrow> ('j, 'e, 'r) db \<Rightarrow> ('e, 'r) awaited \<times> ('j, 'e, 'r) db" where
  "submit_db job d = (settles d (sent d) job, d\<lparr>sent := sent d @ [job]\<rparr>)"

text \<open>
  The \<^verbatim>\<open>catch\<close> block of \<^verbatim>\<open>transaction\<close>: submit a rollback, ignore its rejection,
  clear the flag, throw the caught error again.
\<close>

definition transaction_catch ::
  "'e \<Rightarrow> ('j, 'e, 'r) db \<Rightarrow> ('e, 'a) awaited \<times> ('j, 'e, 'r) db" where
  "transaction_catch err d =
     (case submit_db (ctl d rollback) d of
        (Never, d') \<Rightarrow> (Never, d')
      | (Fulfilled _, d') \<Rightarrow> (Rejected err, d'\<lparr>inTransaction := False\<rparr>)
      | (Rejected _, d') \<Rightarrow> (Rejected err, d'\<lparr>inTransaction := False\<rparr>))"

text \<open>
  \<^verbatim>\<open>async transaction(fn)\<close>. The callback is an asynchronous function of the
  application object: run against a state of the object it settles (or not) and
  leaves the object in a new state. The model is of one call running from start to
  end; other tasks interleaved at its awaits are not part of it.
\<close>

definition transaction ::
  "(('j, 'e, 'r) db \<Rightarrow> ('e, 'a) awaited \<times> ('j, 'e, 'r) db) \<Rightarrow> ('j, 'e, 'r) db
   \<Rightarrow> ('e, 'a) awaited \<times> ('j, 'e, 'r) db" where
  "transaction fn d =
     (if inTransaction d then fn d
      else
        case submit_db (ctl d beginTransaction) (d\<lparr>inTransaction := True\<rparr>) of
          (Never, d1) \<Rightarrow> (Never, d1)
        | (Rejected err, d1) \<Rightarrow> transaction_catch err d1
        | (Fulfilled _, d1) \<Rightarrow>
            (case fn d1 of
               (Never, d2) \<Rightarrow> (Never, d2)
             | (Rejected err, d2) \<Rightarrow> transaction_catch err d2
             | (Fulfilled result, d2) \<Rightarrow>
                 (case submit_db (ctl d2 commit) d2 of
                    (Never, d3) \<Rightarrow> (Never, d3)
                  | (Rejected err, d3) \<Rightarrow> transaction_catch err d3
                  | (Fulfilled _, d3) \<Rightarrow> (Fulfilled result, d3\<lparr>inTransaction := False\<rparr>))))"

text \<open>
  An application object that is outside any transaction and has submitted nothing,
  over a dispatcher that settles submissions as \<open>answer\<close> says; its jobs are the
  control jobs themselves.
\<close>

definition fresh_db ::
  "(control list \<Rightarrow> control \<Rightarrow> (string, unit) awaited) \<Rightarrow> (control, string, unit) db" where
  "fresh_db answer = \<lparr>inTransaction = False, sent = [], settles = answer, ctl = (\<lambda>c. c)\<rparr>"

section \<open>The worker runtimes\<close>

text \<open>
  A job as a runtime receives it. \<^verbatim>\<open>method\<close> is a string; \<^verbatim>\<open>sql\<close> is a string, an
  array of fragments, or absent; \<^verbatim>\<open>values\<close> and \<^verbatim>\<open>steps\<close> may be absent.
\<close>

datatype sql_arg = NoSql | SqlString string | SqlArray "string list"

datatype 'v job =
  Job (jmethod: string) (jsql: sql_arg) (jvalues: "'v list option")
      (jsteps: "'v job list option")

definition TypeError :: "string \<Rightarrow> js_error" where
  "TypeError msg = \<lparr>name = ''TypeError'', message = msg\<rparr>"

subsection \<open>WorkerRuntime, on the built-in driver\<close>

text \<open>
  The SQLite connection is outside the repository. The runtime sees it through
  \<^verbatim>\<open>DatabaseSync.exec(script)\<close>, which runs a script on the connection \<open>'c\<close> and may
  throw, and through the tag store's \<^verbatim>\<open>run\<close>, \<^verbatim>\<open>get\<close> and \<^verbatim>\<open>all\<close>, which take the
  fragments and the values. \<open>None\<close> as a result is \<^verbatim>\<open>undefined\<close>.
\<close>

record ('c, 'v, 'r) node_sqlite =
  exec :: "string \<Rightarrow> 'c \<Rightarrow> js_error option \<times> 'c"
  tagged ::
    "string \<Rightarrow> string list option \<Rightarrow> 'v list \<Rightarrow> 'c \<Rightarrow> (js_error + 'r option) \<times> 'c"

text \<open>\<^verbatim>\<open>this.#db.exec(script)\<close> as a statement of \<^verbatim>\<open>#handle\<close>: it throws or gives nothing.\<close>

definition db_exec ::
  "('c, 'v, 'r) node_sqlite \<Rightarrow> string \<Rightarrow> 'c \<Rightarrow> (js_error + 'r option) \<times> 'c" where
  "db_exec db script c =
     (case exec db script c of
        (Some e, c') \<Rightarrow> (Inl e, c')
      | (None, c') \<Rightarrow> (Inr None, c'))"

text \<open>
  \<^verbatim>\<open>#handle\<close> and the loop of \<^verbatim>\<open>#runTransaction\<close> of WorkerRuntime. A job whose
  \<^verbatim>\<open>sql\<close> is a string has it split at every \<^verbatim>\<open>?\<close> first; \<^verbatim>\<open>exec\<close> passes the first
  piece to the connection. Where a field the method reads is absent, the JavaScript
  engine or the binding throws a \<^verbatim>\<open>TypeError\<close> before the connection is touched; the
  message texts of these errors are indicative.
\<close>

fun WorkerRuntime_handle ::
  "('c, 'v, 'r) node_sqlite \<Rightarrow> 'v job \<Rightarrow> 'c \<Rightarrow> (js_error + 'r option) \<times> 'c"
and WorkerRuntime_steps ::
  "('c, 'v, 'r) node_sqlite \<Rightarrow> 'v job list \<Rightarrow> 'r option \<Rightarrow> 'c \<Rightarrow> (js_error + 'r option) \<times> 'c"
where
  "WorkerRuntime_handle db (Job m s v st) c =
     (let split_sql = (case s of SqlString t \<Rightarrow> Some (js_split CHR ''?'' t)
                               | SqlArray a \<Rightarrow> Some a
                               | NoSql \<Rightarrow> None) in
      if m = ''beginTransaction'' then db_exec db ''BEGIN IMMEDIATE'' c
      else if m = ''commit'' then db_exec db ''COMMIT'' c
      else if m = ''rollback'' then db_exec db ''ROLLBACK'' c
      else if m = ''exec'' then
        (case split_sql of
           None \<Rightarrow> (Inl (TypeError ''Cannot read properties of undefined (reading '0')''), c)
         | Some [] \<Rightarrow> (Inl (TypeError ''The \"sql\" argument must be a string.''), c)
         | Some (first # rest) \<Rightarrow> db_exec db first c)
      else if m = ''run'' \<or> m = ''get'' \<or> m = ''all'' then
        (case v of
           None \<Rightarrow>
             (Inl (TypeError ''Spread syntax requires ...iterable[Symbol.iterator] to be a function''),
              c)
         | Some vs \<Rightarrow> tagged db m split_sql vs c)
      else if m = ''transaction'' then
        (case exec db ''BEGIN'' c of
           (Some e, c1) \<Rightarrow> (Inl e, c1)
         | (None, c1) \<Rightarrow>
             (case (case st of
                      None \<Rightarrow> (Inl (TypeError ''steps is not iterable''), c1)
                    | Some ss \<Rightarrow> WorkerRuntime_steps db ss None c1) of
                (Inl e, c2) \<Rightarrow> (Inl e, snd (exec db ''ROLLBACK'' c2))
              | (Inr result, c2) \<Rightarrow>
                  (case exec db ''COMMIT'' c2 of
                     (Some e, c3) \<Rightarrow> (Inl e, snd (exec db ''ROLLBACK'' c3))
                   | (None, c3) \<Rightarrow> (Inr result, c3))))
      else (Inl (Error (''Unknown DB method: '' @ m)), c))"
| "WorkerRuntime_steps db [] result c = (Inr result, c)"
| "WorkerRuntime_steps db (step # later) result c =
     (case WorkerRuntime_handle db step c of
        (Inl e, c') \<Rightarrow> (Inl e, c')
      | (Inr r, c') \<Rightarrow> WorkerRuntime_steps db later r c')"

subsection \<open>BetterRuntime, on the native binding\<close>

text \<open>
  The runtime keeps the connection and the SQL texts it has prepared (the keys of its
  statement cache). The binding gives \<^verbatim>\<open>exec\<close>, \<^verbatim>\<open>prepare\<close>, the prepared
  statement's \<^verbatim>\<open>run\<close>, \<^verbatim>\<open>get\<close> and \<^verbatim>\<open>all\<close>, and the wrapper
  \<^verbatim>\<open>db.transaction(body)()\<close> that runs a body of the runtime inside its own bracket.
\<close>

record 'c better_state =
  conn :: 'c
  statements :: "string list"

record ('c, 'v, 'r) better_sqlite3 =
  bexec :: "string \<Rightarrow> 'c \<Rightarrow> js_error option \<times> 'c"
  prepare :: "string \<Rightarrow> 'c \<Rightarrow> js_error option \<times> 'c"
  stmt :: "string \<Rightarrow> string \<Rightarrow> 'v list \<Rightarrow> 'c \<Rightarrow> (js_error + 'r option) \<times> 'c"
  in_transaction ::
    "('c better_state \<Rightarrow> (js_error + 'r option) \<times> 'c better_state) \<Rightarrow> 'c better_state
     \<Rightarrow> (js_error + 'r option) \<times> 'c better_state"

text \<open>\<^verbatim>\<open>this.#db.exec(script); return undefined\<close>\<close>

definition better_exec ::
  "('c, 'v, 'r) better_sqlite3 \<Rightarrow> string \<Rightarrow> 'c better_state
   \<Rightarrow> (js_error + 'r option) \<times> 'c better_state" where
  "better_exec db script rt =
     (case bexec db script (conn rt) of
        (Some e, c') \<Rightarrow> (Inl e, rt\<lparr>conn := c'\<rparr>)
      | (None, c') \<Rightarrow> (Inr None, rt\<lparr>conn := c'\<rparr>))"

text \<open>
  \<^verbatim>\<open>#getStatement(sql)\<close>: the cached statement, or a new one that is prepared and
  cached. The statement is known by its text.
\<close>

definition getStatement ::
  "('c, 'v, 'r) better_sqlite3 \<Rightarrow> sql_arg \<Rightarrow> 'c better_state
   \<Rightarrow> (js_error + string) \<times> 'c better_state" where
  "getStatement db s rt =
     (case s of
        SqlString t \<Rightarrow>
          if t \<in> set (statements rt) then (Inr t, rt)
          else (case prepare db t (conn rt) of
                  (Some e, c') \<Rightarrow> (Inl e, rt\<lparr>conn := c'\<rparr>)
                | (None, c') \<Rightarrow> (Inr t, rt\<lparr>conn := c', statements := statements rt @ [t]\<rparr>))
      | _ \<Rightarrow> (Inl (TypeError ''Expected first argument to be a string''), rt))"

text \<open>
  \<^verbatim>\<open>#handle\<close> of BetterRuntime and the loop of its \<^verbatim>\<open>#runTransaction\<close>. \<^verbatim>\<open>values\<close>
  defaults to the empty array. The control methods, \<^verbatim>\<open>transaction\<close> and \<^verbatim>\<open>exec\<close>
  return before a statement is prepared, so the first three cases of the final
  \<^verbatim>\<open>switch\<close> are never reached.
\<close>

fun BetterRuntime_handle ::
  "('c, 'v, 'r) better_sqlite3 \<Rightarrow> 'v job \<Rightarrow> 'c better_state
   \<Rightarrow> (js_error + 'r option) \<times> 'c better_state"
and BetterRuntime_steps ::
  "('c, 'v, 'r) better_sqlite3 \<Rightarrow> 'v job list \<Rightarrow> 'r option \<Rightarrow> 'c better_state
   \<Rightarrow> (js_error + 'r option) \<times> 'c better_state"
where
  "BetterRuntime_handle db (Job m s v st) rt =
     (let vs = (case v of None \<Rightarrow> [] | Some given \<Rightarrow> given) in
      if m = ''beginTransaction'' then better_exec db ''BEGIN IMMEDIATE'' rt
      else if m = ''commit'' then better_exec db ''COMMIT'' rt
      else if m = ''rollback'' then better_exec db ''ROLLBACK'' rt
      else if m = ''transaction'' then
        in_transaction db
          (\<lambda>rt'. case st of
                   None \<Rightarrow> (Inl (TypeError ''steps is not iterable''), rt')
                 | Some ss \<Rightarrow> BetterRuntime_steps db ss None rt') rt
      else if m = ''exec'' then
        (case s of
           SqlString t \<Rightarrow> better_exec db t rt
         | _ \<Rightarrow> (Inl (TypeError ''Expected first argument to be a string''), rt))
      else
        (case getStatement db s rt of
           (Inl e, rt1) \<Rightarrow> (Inl e, rt1)
         | (Inr text, rt1) \<Rightarrow>
             if m = ''run'' \<or> m = ''get'' \<or> m = ''all'' then
               (case stmt db m text vs (conn rt1) of (r, c') \<Rightarrow> (r, rt1\<lparr>conn := c'\<rparr>))
             else (Inl (Error (''Unknown method: '' @ m)), rt1)))"
| "BetterRuntime_steps db [] result rt = (Inr result, rt)"
| "BetterRuntime_steps db (step # later) result rt =
     (case BetterRuntime_handle db step rt of
        (Inl e, rt') \<Rightarrow> (Inl e, rt')
      | (Inr r, rt') \<Rightarrow> BetterRuntime_steps db later r rt')"

text \<open>Connections that record the scripts passed to \<^verbatim>\<open>exec\<close> and never fail.\<close>

definition recording_sqlite :: "(string list, 'v, 'r) node_sqlite" where
  "recording_sqlite =
     \<lparr>exec = (\<lambda>script log. (None, log @ [script])),
      tagged = (\<lambda>m pieces vs log. (Inr None, log))\<rparr>"

definition recording_better :: "(string list, 'v, 'r) better_sqlite3" where
  "recording_better =
     \<lparr>bexec = (\<lambda>script log. (None, log @ [script])),
      prepare = (\<lambda>text log. (None, log)),
      stmt = (\<lambda>m text vs log. (Inr None, log)),
      in_transaction = (\<lambda>body rt. body rt)\<rparr>"

section \<open>The worker handle (DBWorker) and the dispatcher (DBDispatcher)\<close>

text \<open>
  A queued entry \<^verbatim>\<open>{payload, resolve, reject}\<close>: the payload is the job with the id the
  dispatcher gave it, and \<^verbatim>\<open>resolve\<close> and \<^verbatim>\<open>reject\<close> belong to the promise
  \<^verbatim>\<open>submit\<close> returned for that id. The job itself is opaque to the dispatcher.
\<close>

record 'j entry =
  payload :: 'j
  eid :: nat

text \<open>
  A handle. \<^verbatim>\<open>inflight\<close> is \<^verbatim>\<open>{id, resolve, reject}\<close> of the promise \<^verbatim>\<open>run\<close>
  returned; the only caller of \<^verbatim>\<open>run\<close> is \<^verbatim>\<open>#outsource\<close>, which awaits that promise
  for its entry, so the model keeps the entry (its \<open>eid\<close> is the inflight id).
\<close>

record 'j worker =
  busy :: bool
  wclosed :: bool
  inflight :: "'j entry option"

text \<open>
  The synchronous code of the dispatcher that is running, and where it stands:
  \<^item> \<open>Idle\<close>: none, the event loop takes the next event;
  \<^item> \<open>Outsource e\<close>: \<^verbatim>\<open>#outsource(e)\<close> has been called;
  \<^item> \<open>AfterRun e r\<close>: the promise of \<^verbatim>\<open>worker.run\<close> awaited for \<open>e\<close> has settled, with
    the error \<open>Inl err\<close> or the result \<open>Inr v\<close>;
  \<^item> \<open>Drain\<close>: the last statement of \<^verbatim>\<open>#outsource\<close>, \<^verbatim>\<open>if (this.#queue.length) ...\<close>.
\<close>

datatype ('j, 'r) activation =
    Idle
  | Outsource "'j entry"
  | AfterRun "'j entry" "js_error + 'r"
  | Drain

text \<open>
  One element of the array \<^verbatim>\<open>shutdown\<close> gives to \<^verbatim>\<open>Promise.all\<close>, for one handle:
  its \<^verbatim>\<open>terminate()\<close> is pending, the 10 ms poll of \<^verbatim>\<open>#waitForWorkerShutdown\<close> is
  pending, or the promise has resolved.
\<close>

datatype wait = Terminating | Polling | Done

text \<open>
  The dispatcher and what the event loop holds for it: the callbacks given to
  \<^verbatim>\<open>setImmediate\<close> (\<open>immediates\<close>, oldest first), the handles whose \<^verbatim>\<open>terminate()\<close>
  is awaited by an \<^verbatim>\<open>#outsource\<close> (\<open>terminating\<close>), the calls of \<^verbatim>\<open>shutdown\<close>
  (\<open>calls\<close>, one row of waits per call), and how the promises of \<^verbatim>\<open>submit\<close> have
  settled (\<open>settled\<close>, by job id; \<open>None\<close> is pending). \<^verbatim>\<open>maxQueue\<close> is a count or
  \<^verbatim>\<open>Infinity\<close>.
\<close>

record ('j, 'r) dispatcher =
  workers :: "'j worker list"
  queue :: "'j entry list"
  nextJobId :: nat
  closed :: bool
  workerShutdownComplete :: bool
  maxQueue :: enat
  pc :: "('j, 'r) activation"
  immediates :: "'j entry list"
  terminating :: "nat list"
  calls :: "wait list list"
  settled :: "nat \<Rightarrow> (js_error + 'r) option"

text \<open>\<^verbatim>\<open>new DBDispatcher({size, maxQueue})\<close>: \<open>size\<close> fresh handles, nothing queued.\<close>

definition DBDispatcher :: "nat \<Rightarrow> enat \<Rightarrow> ('j, 'r) dispatcher" where
  "DBDispatcher n m =
     \<lparr>workers = replicate n \<lparr>busy = False, wclosed = False, inflight = None\<rparr>,
      queue = [], nextJobId = 1, closed = False, workerShutdownComplete = False,
      maxQueue = m, pc = Idle, immediates = [], terminating = [], calls = [],
      settled = (\<lambda>i. None)\<rparr>"

text \<open>\<^verbatim>\<open>entry.resolve(v)\<close> and \<^verbatim>\<open>entry.reject(err)\<close>: a promise settles once.\<close>

definition settle :: "nat \<Rightarrow> js_error + 'r \<Rightarrow> ('j, 'r) dispatcher \<Rightarrow> ('j, 'r) dispatcher" where
  "settle i v st = (if settled st i = None then st\<lparr>settled := (settled st)(i \<mapsto> v)\<rparr> else st)"

text \<open>\<^verbatim>\<open>this.#workers.find(w => !w.busy)\<close>, as the index of the handle found.\<close>

fun getIdleWorker :: "'j worker list \<Rightarrow> nat option" where
  "getIdleWorker [] = None"
| "getIdleWorker (w # ws) =
     (if \<not> busy w then Some 0 else map_option Suc (getIdleWorker ws))"

text \<open>
  \<^verbatim>\<open>submit(job)\<close> up to the call of \<^verbatim>\<open>#outsource\<close>. \<open>Inl err\<close> is the promise
  rejected at once; \<open>Inr i\<close> is the pending promise of job \<open>i\<close>.
\<close>

definition submit :: "'j \<Rightarrow> ('j, 'r) dispatcher \<Rightarrow> (js_error + nat) \<times> ('j, 'r) dispatcher" where
  "submit job st =
     (if closed st then (Inl (Error ''DBDispatcher is closed''), st)
      else if maxQueue st \<le> enat (length (queue st)) then (Inl (Error ''DB queue is full''), st)
      else (Inr (nextJobId st),
            st\<lparr>nextJobId := nextJobId st + 1,
               pc := Outsource \<lparr>payload = job, eid = nextJobId st\<rparr>\<rparr>))"

text \<open>
  \<^verbatim>\<open>let openWorkers = this.#workers.filter(w => !w.closed);
  if (openWorkers.length === 0) this.#workerShutdownComplete = true\<close>
\<close>

definition check_open :: "('j, 'r) dispatcher \<Rightarrow> ('j, 'r) dispatcher" where
  "check_open st =
     (if length (filter (\<lambda>w. \<not> wclosed w) (workers st)) = 0
      then st\<lparr>workerShutdownComplete := True\<rparr> else st)"

text \<open>\<^verbatim>\<open>DBWorker.run\<close>: throws when the handle is busy, else takes the job.\<close>

definition worker_run :: "'j entry \<Rightarrow> 'j worker \<Rightarrow> js_error + 'j worker" where
  "worker_run e w =
     (if busy w then Inl (Error ''Worker is already busy'')
      else Inr (w\<lparr>busy := True, inflight := Some e\<rparr>))"

text \<open>
  \<^verbatim>\<open>#outsource(entry)\<close> from its start to its first \<^verbatim>\<open>await\<close>, or to its last
  statement when no handle is idle. On a closed dispatcher the entry is dropped: the
  handle found is terminated if it is not closed yet (the function then waits for
  the exit), else the open handles are counted at once.
\<close>

definition outsource :: "'j entry \<Rightarrow> ('j, 'r) dispatcher \<Rightarrow> ('j, 'r) dispatcher" where
  "outsource e st =
     (case getIdleWorker (workers st) of
        Some i \<Rightarrow>
          if closed st then
            (if \<not> wclosed (workers st ! i)
             then st\<lparr>terminating := terminating st @ [i], pc := Idle\<rparr>
             else (check_open st)\<lparr>pc := Idle\<rparr>)
          else
            (case worker_run e (workers st ! i) of
               Inl err \<Rightarrow> st\<lparr>pc := AfterRun e (Inl err)\<rparr>
             | Inr w \<Rightarrow> st\<lparr>workers := (workers st)[i := w], pc := Idle\<rparr>)
      | None \<Rightarrow> st\<lparr>queue := queue st @ [e], pc := Drain\<rparr>)"

text \<open>
  \<^verbatim>\<open>#outsource\<close> after \<^verbatim>\<open>await worker.run(entry.payload)\<close>: resolve the entry, or in
  the \<^verbatim>\<open>catch\<close> put it back at the head of the queue when the message is
  \<^verbatim>\<open>database is locked\<close> and reject it otherwise.
\<close>

definition after_run ::
  "'j entry \<Rightarrow> js_error + 'r \<Rightarrow> ('j, 'r) dispatcher \<Rightarrow> ('j, 'r) dispatcher" where
  "after_run e r st =
     (case r of
        Inr v \<Rightarrow> (settle (eid e) (Inr v) st)\<lparr>pc := Drain\<rparr>
      | Inl err \<Rightarrow>
          if message err = ''database is locked''
          then st\<lparr>queue := e # queue st, pc := Drain\<rparr>
          else (settle (eid e) (Inl err) st)\<lparr>pc := Drain\<rparr>)"

text \<open>
  \<^verbatim>\<open>if (this.#queue.length) { const next_entry = this.#queue.shift();
  return setImmediate(() => this.#outsource(next_entry)); }\<close>
\<close>

definition drain :: "('j, 'r) dispatcher \<Rightarrow> ('j, 'r) dispatcher" where
  "drain st =
     (case queue st of
        [] \<Rightarrow> st\<lparr>pc := Idle\<rparr>
      | next_entry # rest \<Rightarrow>
          st\<lparr>queue := rest, immediates := immediates st @ [next_entry], pc := Idle\<rparr>)"

text \<open>
  The handle's \<^verbatim>\<open>message\<close> listener, for a reply \<^verbatim>\<open>{id, result}\<close> or \<^verbatim>\<open>{id, error}\<close>
  of the runtime of handle \<open>i\<close>: a reply that is not for the inflight job is ignored;
  otherwise the handle is idle again and the promise of \<^verbatim>\<open>run\<close> settles, which
  resumes the \<^verbatim>\<open>#outsource\<close> awaiting it in the same turn of the event loop.
\<close>

definition on_message ::
  "nat \<Rightarrow> nat \<Rightarrow> js_error + 'r \<Rightarrow> ('j, 'r) dispatcher \<Rightarrow> ('j, 'r) dispatcher" where
  "on_message i mid reply st =
     (if i < length (workers st) then
        (case inflight (workers st ! i) of
           None \<Rightarrow> st
         | Some e \<Rightarrow>
             if eid e \<noteq> mid then st
             else st\<lparr>workers := (workers st)[i := (workers st ! i)\<lparr>busy := False, inflight := None\<rparr>],
                    pc := AfterRun e reply\<rparr>)
      else st)"

text \<open>
  The handle's \<^verbatim>\<open>error\<close> listener, for an error the runtime of handle \<open>i\<close> dies of:
  the inflight promise, if any, is rejected with it; \<^verbatim>\<open>busy\<close> is cleared. Nothing
  else of the handle changes.
\<close>

definition on_error :: "nat \<Rightarrow> js_error \<Rightarrow> ('j, 'r) dispatcher \<Rightarrow> ('j, 'r) dispatcher" where
  "on_error i err st =
     (if i < length (workers st) then
        (case inflight (workers st ! i) of
           Some e \<Rightarrow>
             st\<lparr>workers := (workers st)[i := (workers st ! i)\<lparr>inflight := None, busy := False\<rparr>],
                pc := AfterRun e (Inl err)\<rparr>
         | None \<Rightarrow> st\<lparr>workers := (workers st)[i := (workers st ! i)\<lparr>busy := False\<rparr>]\<rparr>)
      else st)"

text \<open>
  \<^verbatim>\<open>shutdown()\<close> up to \<^verbatim>\<open>await Promise.all(...)\<close>: close, reject what is in the
  queue, empty it, and start one wait per handle: \<^verbatim>\<open>terminate()\<close> for an idle handle,
  the poll of \<^verbatim>\<open>#workerShutdownComplete\<close> for a busy one.
\<close>

definition shutdown :: "('j, 'r) dispatcher \<Rightarrow> ('j, 'r) dispatcher" where
  "shutdown st =
     (let st1 = st\<lparr>closed := True\<rparr>;
          st2 = fold (\<lambda>e. settle (eid e) (Inl (Error ''DBDispatcher shutting down'')))
                  (queue st1) st1;
          st3 = st2\<lparr>queue := []\<rparr>
      in st3\<lparr>calls := calls st3 @
                 [map (\<lambda>w. if \<not> busy w then Terminating else Polling) (workers st3)]\<rparr>)"

text \<open>
  The exit of the runtime of handle \<open>i\<close>, awaited by \<^verbatim>\<open>terminate()\<close> in call \<open>c\<close> of
  \<^verbatim>\<open>shutdown\<close>: the handle is closed and that promise of the call resolves.
\<close>

definition terminated_for_shutdown ::
  "nat \<Rightarrow> nat \<Rightarrow> ('j, 'r) dispatcher \<Rightarrow> ('j, 'r) dispatcher" where
  "terminated_for_shutdown c i st =
     (if c < length (calls st) \<and> i < length (calls st ! c) \<and> i < length (workers st)
         \<and> calls st ! c ! i = Terminating
      then st\<lparr>workers := (workers st)[i := (workers st ! i)\<lparr>wclosed := True\<rparr>],
             calls := (calls st)[c := (calls st ! c)[i := Done]]\<rparr>
      else st)"

text \<open>
  The exit awaited by the \<open>k\<close>-th pending \<^verbatim>\<open>terminate()\<close> of an \<^verbatim>\<open>#outsource\<close>: the
  handle is closed, and \<^verbatim>\<open>#outsource\<close> goes on to count the open handles.
\<close>

definition terminated_for_outsource :: "nat \<Rightarrow> ('j, 'r) dispatcher \<Rightarrow> ('j, 'r) dispatcher" where
  "terminated_for_outsource k st =
     (if k < length (terminating st) \<and> terminating st ! k < length (workers st) then
        (let i = terminating st ! k in
         check_open
           (st\<lparr>workers := (workers st)[i := (workers st ! i)\<lparr>wclosed := True\<rparr>],
               terminating := take k (terminating st) @ drop (Suc k) (terminating st)\<rparr>))
      else st)"

text \<open>
  A tick of the interval of \<^verbatim>\<open>#waitForWorkerShutdown\<close> for handle \<open>i\<close> in call \<open>c\<close>:
  the promise resolves once \<^verbatim>\<open>#workerShutdownComplete\<close> is set.
\<close>

definition interval_tick :: "nat \<Rightarrow> nat \<Rightarrow> ('j, 'r) dispatcher \<Rightarrow> ('j, 'r) dispatcher" where
  "interval_tick c i st =
     (if c < length (calls st) \<and> i < length (calls st ! c) \<and> calls st ! c ! i = Polling
         \<and> workerShutdownComplete st
      then st\<lparr>calls := (calls st)[c := (calls st ! c)[i := Done]]\<rparr>
      else st)"

text \<open>\<^verbatim>\<open>setImmediate\<close> runs its oldest callback: \<^verbatim>\<open>this.#outsource(next_entry)\<close>.\<close>

definition run_immediate :: "('j, 'r) dispatcher \<Rightarrow> ('j, 'r) dispatcher" where
  "run_immediate st =
     (case immediates st of
        [] \<Rightarrow> st
      | e # rest \<Rightarrow> st\<lparr>immediates := rest, pc := Outsource e\<rparr>)"

text \<open>
  What can happen next. While synchronous code of the dispatcher runs, only that code
  goes on (\<open>Continue\<close>); when none runs, the event loop delivers a call of
  \<^verbatim>\<open>submit\<close> or \<^verbatim>\<open>shutdown\<close>, a \<^verbatim>\<open>setImmediate\<close> callback, a reply or an error of a
  runtime, the exit of a runtime, or a timer tick.
\<close>

datatype ('j, 'r) event =
    Submit 'j
  | Shutdown
  | Continue
  | Immediate
  | Message nat nat "js_error + 'r"
  | WorkerError nat js_error
  | TerminatedForShutdown nat nat
  | TerminatedForOutsource nat
  | IntervalTick nat nat

definition step :: "('j, 'r) event \<Rightarrow> ('j, 'r) dispatcher \<Rightarrow> ('j, 'r) dispatcher" where
  "step ev st =
     (case pc st of
        Idle \<Rightarrow>
          (case ev of
             Submit job \<Rightarrow> snd (submit job st)
           | Shutdown \<Rightarrow> shutdown st
           | Continue \<Rightarrow> st
           | Immediate \<Rightarrow> run_immediate st
           | Message i mid reply \<Rightarrow> on_message i mid reply st
           | WorkerError i err \<Rightarrow> on_error i err st
           | TerminatedForShutdown c i \<Rightarrow> terminated_for_shutdown c i st
           | TerminatedForOutsource k \<Rightarrow> terminated_for_outsource k st
           | IntervalTick c i \<Rightarrow> interval_tick c i st)
      | Outsource e \<Rightarrow> (case ev of Continue \<Rightarrow> outsource e st | _ \<Rightarrow> st)
      | AfterRun e r \<Rightarrow> (case ev of Continue \<Rightarrow> after_run e r st | _ \<Rightarrow> st)
      | Drain \<Rightarrow> (case ev of Continue \<Rightarrow> drain st | _ \<Rightarrow> st))"

definition run_events :: "('j, 'r) event list \<Rightarrow> ('j, 'r) dispatcher \<Rightarrow> ('j, 'r) dispatcher" where
  "run_events evs st = fold step evs st"

text \<open>
  Call \<open>c\<close> of \<^verbatim>\<open>shutdown\<close> has resolved: every promise given to \<^verbatim>\<open>Promise.all\<close> has.
\<close>

definition shutdown_resolved :: "nat \<Rightarrow> ('j, 'r) dispatcher \<Rightarrow> bool" where
  "shutdown_resolved c st = (c < length (calls st) \<and> list_all (\<lambda>w. w = Done) (calls st ! c))"

subsection \<open>Invariants of the dispatcher\<close>

text \<open>
  The queue is empty whenever \<^verbatim>\<open>#outsource\<close> is not at its last statement, and holds
  at most the one entry just pushed or unshifted when it is: the last statement
  takes the head out again at once.
\<close>

definition queue_ok :: "('j, 'r) dispatcher \<Rightarrow> bool" where
  "queue_ok st = (if pc st = Drain then length (queue st) \<le> 1 else queue st = [])"

text \<open>
  No entry exists anywhere: none is being routed, none waits in a \<^verbatim>\<open>setImmediate\<close>
  callback, none is in flight. With \<^verbatim>\<open>maxQueue = 0\<close> every \<^verbatim>\<open>submit\<close> is rejected and
  this stays so.
\<close>

definition no_entries :: "('j, 'r) dispatcher \<Rightarrow> bool" where
  "no_entries st =
     (pc st = Idle \<and> immediates st = [] \<and> list_all (\<lambda>w. inflight w = None) (workers st))"

definition queue_inv :: "('j, 'r) dispatcher \<Rightarrow> bool" where
  "queue_inv st = (queue_ok st \<and> (maxQueue st = 0 \<longrightarrow> no_entries st))"

text \<open>
  Before \<^verbatim>\<open>shutdown\<close> is called nothing has been terminated and no wait exists.
\<close>

definition open_inv :: "('j, 'r) dispatcher \<Rightarrow> bool" where
  "open_inv st =
     (\<not> closed st \<longrightarrow>
        terminating st = [] \<and> calls st = [] \<and> \<not> workerShutdownComplete st
      \<and> (\<forall>i<length (workers st). \<not> wclosed (workers st ! i)))"

text \<open>
  A handle that is closed, or whose \<^verbatim>\<open>terminate()\<close> is pending, is not busy: handles
  are terminated only when found idle, and a closed dispatcher starts no job.
\<close>

definition idle_inv :: "('j, 'r) dispatcher \<Rightarrow> bool" where
  "idle_inv st =
     ((\<forall>i<length (workers st). wclosed (workers st ! i) \<longrightarrow> \<not> busy (workers st ! i))
    \<and> (\<forall>i \<in> set (terminating st). i < length (workers st) \<and> \<not> busy (workers st ! i))
    \<and> (\<forall>c<length (calls st). \<forall>i<length (workers st).
          i < length (calls st ! c) \<and> calls st ! c ! i = Terminating \<longrightarrow> \<not> busy (workers st ! i)))"

text \<open>
  \<^verbatim>\<open>#workerShutdownComplete\<close> is set only when every handle is closed, and a wait of a
  \<^verbatim>\<open>shutdown\<close> call is done only when its handle is closed; every call has one wait
  per handle.
\<close>

definition closed_inv :: "('j, 'r) dispatcher \<Rightarrow> bool" where
  "closed_inv st =
     ((workerShutdownComplete st \<longrightarrow> (\<forall>i<length (workers st). wclosed (workers st ! i)))
    \<and> (\<forall>c<length (calls st).
          length (calls st ! c) = length (workers st)
        \<and> (\<forall>i<length (workers st). calls st ! c ! i = Done \<longrightarrow> wclosed (workers st ! i))))"

definition shutdown_inv :: "('j, 'r) dispatcher \<Rightarrow> bool" where
  "shutdown_inv st = (open_inv st \<and> idle_inv st \<and> closed_inv st)"

section \<open>Properties of the composer\<close>

lemma js_split_nonempty: "js_split c s \<noteq> []"
  by (induction s) (auto split: list.splits)

lemma js_join_empty_sep: "js_join [] ps = concat ps"
  by (induction "[]::string" ps rule: js_join.induct) auto

lemma compile_loop_unfold:
  "i + length rest = n \<Longrightarrow> drop (Suc i) strings = rest \<Longrightarrow> Suc n = length strings \<Longrightarrow>
   compile_loop strings n i acc = acc @ concat (map (\<lambda>p. ''?'' @ p) rest)"
proof (induction strings n i acc arbitrary: rest rule: compile_loop.induct)
  case (1 strings n i acc)
  show ?case
  proof (cases "i < n")
    case False
    with "1.prems" have "rest = []" by simp
    with False show ?thesis by (simp add: compile_loop.simps)
  next
    case True
    with "1.prems" obtain r rs where rest: "rest = r # rs"
      by (cases rest) auto
    from "1.prems" rest have r: "r = strings ! Suc i"
      by (metis Cons_nth_drop_Suc drop_all list.distinct(1) list.inject not_less)
    from "1.prems" rest have rs: "drop (Suc (i + 1)) strings = rs"
      by (metis Suc_eq_plus1 drop_Suc list.sel(3) tl_drop)
    from "1.prems" rest have len: "(i + 1) + length rs = n" by simp
    have inb: "Suc i < length strings" using True "1.prems" by simp
    have "compile_loop strings n i acc =
          compile_loop strings n (i + 1) (acc @ ''?'' @ js_at strings (i + 1))"
      using True by (subst compile_loop.simps) simp
    also have "\<dots> = (acc @ ''?'' @ js_at strings (i + 1)) @ concat (map (\<lambda>p. ''?'' @ p) rs)"
      using "1.IH" [OF True len] rs "1.prems"(3) by simp
    finally show ?thesis using rest r inb by (simp add: js_at_def)
  qed
qed

lemma js_join_qmark: "js_join ''?'' (f # fs) = f @ concat (map (\<lambda>p. ''?'' @ p) fs)"
  by (induction fs arbitrary: f) auto

lemma compile_loop_join:
  assumes "length (f # fs) = Suc n"
  shows "compile_loop (f # fs) n 0 f = js_join ''?'' (f # fs)"
proof -
  have "compile_loop (f # fs) n 0 f = f @ concat (map (\<lambda>p. ''?'' @ p) fs)"
    using assms by (intro compile_loop_unfold) auto
  then show ?thesis by (simp add: js_join_qmark)
qed

lemma js_split_join:
  "fs \<noteq> [] \<Longrightarrow> \<forall>f \<in> set fs. c \<notin> set f \<Longrightarrow> js_split c (js_join [c] fs) = fs"
proof (induction "[c]" fs rule: js_join.induct)
  case 1
  then show ?case by simp
next
  case (2 p)
  then show ?case by (induction p) (auto split: list.splits)
next
  case (3 p q ps)
  from 3 have IH: "js_split c (js_join [c] (q # ps)) = q # ps" by simp
  from 3 have "c \<notin> set p" by simp
  then have "js_split c (p @ [c] @ js_join [c] (q # ps)) = p # js_split c (js_join [c] (q # ps))"
    by (induction p) (auto split: list.splits)
  with IH show ?case by simp
qed

lemma count_char_join:
  "fs \<noteq> [] \<Longrightarrow> \<forall>f \<in> set fs. c \<notin> set f \<Longrightarrow> count_char c (js_join [c] fs) = length fs - 1"
proof (induction "[c]" fs rule: js_join.induct)
  case 1
  then show ?case by simp
next
  case (2 p)
  then show ?case by (auto simp: count_char_def filter_empty_conv)
next
  case (3 p q ps)
  then have "filter (\<lambda>x. x = c) p = []" by (auto simp: filter_empty_conv)
  with 3 show ?case by (simp add: count_char_def)
qed

lemma compile_lib_join:
  assumes "length fragments = length vs + 1"
  shows "compile_lib fragments vs = \<lparr>sql = js_join ''?'' fragments, vals = vs\<rparr>"
proof (cases vs)
  case Nil
  with assms obtain f where "fragments = [f]"
    by (cases fragments) auto
  with Nil show ?thesis by (simp add: compile_lib_def)
next
  case (Cons v vs')
  with assms obtain f fs where fr: "fragments = f # fs"
    by (cases fragments) auto
  with assms have "compile_loop (f # fs) (length vs) 0 f = js_join ''?'' (f # fs)"
    by (intro compile_loop_join) simp
  with Cons fr show ?thesis by (simp add: compile_lib_def js_at_def)
qed

lemma compile_checked_join:
  assumes "length fragments = length vs + 1"
  shows "compile_checked (Frags fragments) vs =
         Inr \<lparr>sql = Text (js_join ''?'' fragments), vals = vs\<rparr>"
proof -
  have "compile_checked (Frags fragments) vs =
        Inr \<lparr>sql = Text (sql (compile_lib fragments vs)), vals = vals (compile_lib fragments vs)\<rparr>"
    using assms by (simp add: compile_checked_def compile_lib_def)
  then show ?thesis by (simp add: compile_lib_join [OF assms])
qed

lemma compile_checked_arity:
  "int (length fragments) - 1 \<noteq> int (length vs) \<Longrightarrow>
   compile_checked (Frags fragments) vs = Inl (InvalidQuery (length fragments) (length vs))"
  by (simp add: compile_checked_def)

text \<open>
  C2 (amended). For fragments and values with \<open>|fragments| = |values| + 1\<close>, both
  composers return the fragments joined by \<open>?\<close> and the values unchanged. When no
  fragment itself contains \<open>?\<close>, the output has exactly \<open>|values|\<close> question marks,
  splitting it at \<open>?\<close> gives the fragments back, and rejoining those pieces without the
  \<open>?\<close> gives the concatenation of the fragments.
\<close>

theorem compile_joins_fragments:
  assumes "length fragments = length vs + 1"
  shows "compile_lib fragments vs = \<lparr>sql = js_join ''?'' fragments, vals = vs\<rparr>
       \<and> compile_checked (Frags fragments) vs =
           Inr \<lparr>sql = Text (js_join ''?'' fragments), vals = vs\<rparr>
       \<and> ((\<forall>f \<in> set fragments. CHR ''?'' \<notin> set f) \<longrightarrow>
            count_char CHR ''?'' (sql (compile_lib fragments vs)) = length vs
          \<and> js_split CHR ''?'' (sql (compile_lib fragments vs)) = fragments
          \<and> js_join [] (js_split CHR ''?'' (sql (compile_lib fragments vs))) =
              js_join [] fragments)"
proof -
  from assms have ne: "fragments \<noteq> []" by auto
  have a: "compile_lib fragments vs = \<lparr>sql = js_join ''?'' fragments, vals = vs\<rparr>"
    by (rule compile_lib_join [OF assms])
  have b: "compile_checked (Frags fragments) vs =
           Inr \<lparr>sql = Text (js_join ''?'' fragments), vals = vs\<rparr>"
    by (rule compile_checked_join [OF assms])
  have c: "count_char CHR ''?'' (js_join ''?'' fragments) = length vs"
    and d: "js_split CHR ''?'' (js_join ''?'' fragments) = fragments"
    if "\<forall>f \<in> set fragments. CHR ''?'' \<notin> set f"
    using that ne assms count_char_join [of fragments "CHR ''?''"]
      js_split_join [of fragments "CHR ''?''"] by simp_all
  from a b c d show ?thesis by simp
qed

theorem compile_joins_fragments_witness:
  "length [''a = '', '' AND b = '', ''''] = length [1::int, 2] + 1
   \<and> \<not> (\<exists>f \<in> set [''a = '', '' AND b = '', '''']. CHR ''?'' \<in> set f)
   \<and> compile_lib [''a = '', '' AND b = '', ''''] [1::int, 2] =
       \<lparr>sql = ''a = ? AND b = ?'', vals = [1, 2]\<rparr>
   \<and> count_char CHR ''?'' (sql (compile_lib [''a = '', '' AND b = '', ''''] [1::int, 2])) = 2
   \<and> js_split CHR ''?'' (sql (compile_lib [''a = '', '' AND b = '', ''''] [1::int, 2])) =
       [''a = '', '' AND b = '', '''']"
  using compile_joins_fragments [of "[''a = '', '' AND b = '', '''']" "[1::int, 2]"]
  by (simp add: count_char_def)

text \<open>
  C2 as stated fails when a fragment contains \<open>?\<close>: the fragment \<^verbatim>\<open>x = "?" AND y = \<close>
  with one value gives two question marks, and removing them does not give the
  concatenation of the fragments.
\<close>

theorem compile_qmark_in_fragment_counterexample:
  "length [''x = \"?\" AND y = '', ''''] = length [7::int] + 1
   \<and> count_char CHR ''?'' (sql (compile_lib [''x = \"?\" AND y = '', ''''] [7::int]))
       \<noteq> length [7::int]
   \<and> js_join [] (js_split CHR ''?'' (sql (compile_lib [''x = \"?\" AND y = '', ''''] [7::int])))
       \<noteq> js_join [] [''x = \"?\" AND y = '', '''']"
  by (simp add: compile_lib_def compile_loop.simps js_at_def count_char_def)

text \<open>
  C9. The composer of lib/SQLCompiler.js, the one lib/DB.js imports, has no arity check:
  on an empty fragment array it returns the empty statement, and with more values than
  gaps it prints \<^verbatim>\<open>undefined\<close> into the statement. The other composer of the
  repository rejects both inputs (\<open>compile_checked_arity\<close>).
\<close>

theorem compile_lib_arity_mismatch_returns:
  "int (length ([]::string list)) - 1 \<noteq> int (length ([]::int list))
   \<and> compile_lib [] ([]::int list) = \<lparr>sql = [], vals = []\<rparr>
   \<and> compile_checked (Frags []) ([]::int list) = Inl (InvalidQuery 0 0)
   \<and> int (length [''a'']) - 1 \<noteq> int (length [1::int, 2])
   \<and> compile_lib [''a''] [1::int, 2] = \<lparr>sql = ''a?undefined?undefined'', vals = [1, 2]\<rparr>
   \<and> compile_checked (Frags [''a'']) [1::int, 2] = Inl (InvalidQuery 1 2)"
  by (simp add: compile_lib_def compile_checked_def compile_loop.simps js_at_def)

section \<open>Properties of the application object\<close>

text \<open>
  C8 (amended). When the constructor is called without a worker count (no argument at
  all, or an options object whose \<^verbatim>\<open>workers\<close> is absent), the dispatcher is given
  one worker, whatever the driver and the file name: the parameter's own default is 1.
  The count that depends on driver and file name (1 for \<^verbatim>\<open>better-sqlite\<close>, else the
  host's available parallelism for \<^verbatim>\<open>:memory:\<close>, else 2) is used only when
  \<^verbatim>\<open>workers\<close> is passed as \<^verbatim>\<open>null\<close>.
\<close>

theorem constructor_default_size:
  "(workers_arg given = Undefined \<and> DB_constructor ap (Some given) = Inr d \<longrightarrow> size d = 1)
   \<and> (DB_constructor ap None = Inr d \<longrightarrow> size d = 1)
   \<and> (workers_arg given = Null \<and> DB_constructor ap (Some given) = Inr d \<longrightarrow>
        size d = defaultWorkers ap
                   (case driver given of None \<Rightarrow> ''node:sqlite'' | Some x \<Rightarrow> x)
                   (case filename given of None \<Rightarrow> '':memory:'' | Some f \<Rightarrow> f))"
  by (auto simp: DB_constructor_def Let_def js_default_def js_nullish_def
           split: sum.splits option.splits)

theorem constructor_default_size_witness:
  "DB_constructor 8 (Some \<lparr>filename = Some ''./chat.db'', driver = None, workers_arg = Undefined\<rparr>) =
     Inr \<lparr>workerPath = ''workers/db.worker.js'', size = 1, workerData_filename = ''./chat.db''\<rparr>
   \<and> DB_constructor 8 None =
     Inr \<lparr>workerPath = ''workers/db.worker.js'', size = 1, workerData_filename = '':memory:''\<rparr>
   \<and> DB_constructor 8
        (Some \<lparr>filename = Some ''./chat.db'', driver = Some ''node:sqlite'', workers_arg = Null\<rparr>) =
     Inr \<lparr>workerPath = ''workers/db.worker.js'', size = 2, workerData_filename = ''./chat.db''\<rparr>"
  using constructor_default_size
    [of "\<lparr>filename = Some ''./chat.db'', driver = None, workers_arg = Undefined\<rparr>" 8
        "\<lparr>workerPath = ''workers/db.worker.js'', size = 1, workerData_filename = ''./chat.db''\<rparr>"]
  by (simp add: DB_constructor_def getWorkerPath_def js_default_def js_nullish_def
        defaultWorkers_def)

text \<open>
  C8 as stated fails: for the default driver and a database file the claim gives 2
  workers, for the default driver in memory it gives the host's parallelism (8 here);
  the constructor gives 1 in both.
\<close>

theorem constructor_default_counterexample:
  "DB_constructor 8 (Some \<lparr>filename = Some ''./chat.db'', driver = None, workers_arg = Undefined\<rparr>) =
     Inr \<lparr>workerPath = ''workers/db.worker.js'', size = 1, workerData_filename = ''./chat.db''\<rparr>
   \<and> (1::nat) \<noteq> defaultWorkers 8 ''node:sqlite'' ''./chat.db''
   \<and> DB_constructor 8 (Some \<lparr>filename = None, driver = None, workers_arg = Undefined\<rparr>) =
     Inr \<lparr>workerPath = ''workers/db.worker.js'', size = 1, workerData_filename = '':memory:''\<rparr>
   \<and> (1::nat) \<noteq> defaultWorkers 8 ''node:sqlite'' '':memory:''"
  by (simp add: DB_constructor_def getWorkerPath_def js_default_def js_nullish_def
        defaultWorkers_def)

text \<open>
  C1. \<^verbatim>\<open>transaction(userFn)\<close>: with the flag already set, the call is the call of
  \<open>userFn\<close> on the same object and submits nothing of its own. Otherwise the flag is
  set and a \<open>beginTransaction\<close> job is submitted before \<open>userFn\<close> runs; when
  \<open>userFn\<close> and the \<open>commit\<close> job succeed, the commit has been submitted, the flag is
  cleared and the result of \<open>userFn\<close> is returned; when the begin job, \<open>userFn\<close> or
  the commit job fails, a \<open>rollback\<close> job is submitted, its own outcome is ignored, the
  flag is cleared and the first error is thrown again.
\<close>

theorem transaction_protocol:
  fixes d :: "('j, 'e, 'r) db"
    and fn :: "('j, 'e, 'r) db \<Rightarrow> ('e, 'a) awaited \<times> ('j, 'e, 'r) db"
  defines "d1 \<equiv> d\<lparr>inTransaction := True, sent := sent d @ [ctl d beginTransaction]\<rparr>"
  shows
  "(inTransaction d \<longrightarrow> transaction fn d = fn d)
 \<and> (\<not> inTransaction d \<and> settles d (sent d) (ctl d beginTransaction) = Fulfilled u
     \<and> fn d1 = (Fulfilled result, after)
     \<and> settles after (sent after) (ctl after commit) = Fulfilled v
     \<longrightarrow> inTransaction d1
       \<and> transaction fn d =
           (Fulfilled result, after\<lparr>sent := sent after @ [ctl after commit], inTransaction := False\<rparr>))
 \<and> (\<not> inTransaction d \<and> settles d (sent d) (ctl d beginTransaction) = Fulfilled u
     \<and> fn d1 = (Rejected err, after)
     \<and> settles after (sent after) (ctl after rollback) \<noteq> Never
     \<longrightarrow> transaction fn d =
           (Rejected err, after\<lparr>sent := sent after @ [ctl after rollback], inTransaction := False\<rparr>))
 \<and> (\<not> inTransaction d \<and> settles d (sent d) (ctl d beginTransaction) = Rejected err
     \<and> settles d1 (sent d1) (ctl d1 rollback) \<noteq> Never
     \<longrightarrow> transaction fn d =
           (Rejected err, d1\<lparr>sent := sent d1 @ [ctl d1 rollback], inTransaction := False\<rparr>))
 \<and> (\<not> inTransaction d \<and> settles d (sent d) (ctl d beginTransaction) = Fulfilled u
     \<and> fn d1 = (Fulfilled result, after)
     \<and> settles after (sent after) (ctl after commit) = Rejected err
     \<and> settles after (sent after @ [ctl after commit]) (ctl after rollback) \<noteq> Never
     \<longrightarrow> transaction fn d =
           (Rejected err,
            after\<lparr>sent := sent after @ [ctl after commit, ctl after rollback], inTransaction := False\<rparr>))"
  unfolding d1_def
  by (auto simp: transaction_def transaction_catch_def submit_db_def split: awaited.splits)

theorem transaction_protocol_witness:
  "transaction (\<lambda>d. (Fulfilled (7::nat), d)) (fresh_db (\<lambda>h j. Fulfilled ())\<lparr>inTransaction := True\<rparr>) =
     (Fulfilled 7, fresh_db (\<lambda>h j. Fulfilled ())\<lparr>inTransaction := True\<rparr>)
 \<and> transaction (\<lambda>d. (Fulfilled (7::nat), d)) (fresh_db (\<lambda>h j. Fulfilled ())) =
     (Fulfilled 7, fresh_db (\<lambda>h j. Fulfilled ())\<lparr>sent := [beginTransaction, commit]\<rparr>)
 \<and> transaction (\<lambda>d. (Rejected ''boom'' :: (string, nat) awaited, d))
       (fresh_db (\<lambda>h j. if j = rollback then Rejected ''no transaction'' else Fulfilled ())) =
     (Rejected ''boom'',
      fresh_db (\<lambda>h j. if j = rollback then Rejected ''no transaction'' else Fulfilled ())
        \<lparr>sent := [beginTransaction, rollback]\<rparr>)
 \<and> transaction (\<lambda>d. (Fulfilled (7::nat), d))
       (fresh_db (\<lambda>h j. if j = beginTransaction then Rejected ''DB queue is full'' else Fulfilled ())) =
     (Rejected ''DB queue is full'',
      fresh_db (\<lambda>h j. if j = beginTransaction then Rejected ''DB queue is full'' else Fulfilled ())
        \<lparr>sent := [beginTransaction, rollback]\<rparr>)
 \<and> transaction (\<lambda>d. (Fulfilled (7::nat), d))
       (fresh_db (\<lambda>h j. if j = commit then Rejected ''disk I/O error'' else Fulfilled ())) =
     (Rejected ''disk I/O error'',
      fresh_db (\<lambda>h j. if j = commit then Rejected ''disk I/O error'' else Fulfilled ())
        \<lparr>sent := [beginTransaction, commit, rollback]\<rparr>)"
proof -
  let ?ok = "\<lambda>(h::control list) (j::control). Fulfilled () :: (string, unit) awaited"
  let ?norb = "\<lambda>(h::control list) j. if j = rollback then Rejected ''no transaction'' else Fulfilled ()"
  let ?nobegin = "\<lambda>(h::control list) j. if j = beginTransaction then Rejected ''DB queue is full'' else Fulfilled ()"
  let ?nocommit = "\<lambda>(h::control list) j. if j = commit then Rejected ''disk I/O error'' else Fulfilled ()"
  let ?seven = "\<lambda>d::(control, string, unit) db. (Fulfilled (7::nat) :: (string, nat) awaited, d)"
  let ?boom = "\<lambda>d::(control, string, unit) db. (Rejected ''boom'' :: (string, nat) awaited, d)"
  have a: "transaction ?seven (fresh_db ?ok\<lparr>inTransaction := True\<rparr>) =
           (Fulfilled 7, fresh_db ?ok\<lparr>inTransaction := True\<rparr>)"
    using transaction_protocol [where d = "fresh_db ?ok\<lparr>inTransaction := True\<rparr>" and fn = ?seven]
    by (simp add: fresh_db_def)
  have b: "transaction ?seven (fresh_db ?ok) =
           (Fulfilled 7, fresh_db ?ok\<lparr>sent := [beginTransaction, commit]\<rparr>)"
    using transaction_protocol [where d = "fresh_db ?ok" and fn = ?seven and result = 7 and u = "()" and v = "()"
        and after = "fresh_db ?ok\<lparr>inTransaction := True, sent := [beginTransaction]\<rparr>"]
    by (simp add: fresh_db_def)
  have c: "transaction ?boom (fresh_db ?norb) =
           (Rejected ''boom'', fresh_db ?norb\<lparr>sent := [beginTransaction, rollback]\<rparr>)"
    using transaction_protocol [where d = "fresh_db ?norb" and fn = ?boom and err = "''boom''" and u = "()"
        and after = "fresh_db ?norb\<lparr>inTransaction := True, sent := [beginTransaction]\<rparr>"]
    by (simp add: fresh_db_def)
  have d: "transaction ?seven (fresh_db ?nobegin) =
           (Rejected ''DB queue is full'', fresh_db ?nobegin\<lparr>sent := [beginTransaction, rollback]\<rparr>)"
    using transaction_protocol [where d = "fresh_db ?nobegin" and fn = ?seven and err = "''DB queue is full''"]
    by (simp add: fresh_db_def)
  have e: "transaction ?seven (fresh_db ?nocommit) =
           (Rejected ''disk I/O error'',
            fresh_db ?nocommit\<lparr>sent := [beginTransaction, commit, rollback]\<rparr>)"
    using transaction_protocol [where d = "fresh_db ?nocommit" and fn = ?seven and result = 7 and u = "()"
        and err = "''disk I/O error''"
        and after = "fresh_db ?nocommit\<lparr>inTransaction := True, sent := [beginTransaction]\<rparr>"]
    by (simp add: fresh_db_def)
  from a b c d e show ?thesis by simp
qed

section \<open>Properties of the worker runtimes\<close>

lemma js_split_first: "js_split c t = takeWhile (\<lambda>x. x \<noteq> c) t # tl (js_split c t)"
  by (induction t) (auto split: list.splits)

text \<open>
  C6. For a job with method \<^verbatim>\<open>exec\<close> and a string as \<^verbatim>\<open>sql\<close>, BetterRuntime passes
  the whole string to the connection, WorkerRuntime only the part before the first
  \<^verbatim>\<open>?\<close>: of the script \<^verbatim>\<open>SELECT "a?"; DELETE FROM t\<close> it executes \<^verbatim>\<open>SELECT "a\<close>.
  Both reply with an empty result when the connection does not throw.
\<close>

theorem exec_script_cut_at_question_mark:
  "WorkerRuntime_handle db (Job ''exec'' (SqlString t) v st) c =
     db_exec db (takeWhile (\<lambda>x. x \<noteq> CHR ''?'') t) c
   \<and> BetterRuntime_handle bdb (Job ''exec'' (SqlString t) v st) rt = better_exec bdb t rt
   \<and> WorkerRuntime_handle (recording_sqlite :: (string list, int, int) node_sqlite)
        (Job ''exec'' (SqlString ''SELECT \"a?\"; DELETE FROM t'') None None) [] =
       (Inr None, [''SELECT \"a''])
   \<and> BetterRuntime_handle (recording_better :: (string list, int, int) better_sqlite3)
        (Job ''exec'' (SqlString ''SELECT \"a?\"; DELETE FROM t'') None None)
        \<lparr>conn = [], statements = []\<rparr> =
       (Inr None, \<lparr>conn = [''SELECT \"a?\"; DELETE FROM t''], statements = []\<rparr>)"
proof -
  have a: "WorkerRuntime_handle db (Job ''exec'' (SqlString t) v st) c =
           db_exec db (takeWhile (\<lambda>x. x \<noteq> CHR ''?'') t) c" for db :: "('x, 'y, 'z) node_sqlite" and t v st c
    by (subst WorkerRuntime_handle.simps, subst js_split_first) simp
  have b: "BetterRuntime_handle bdb (Job ''exec'' (SqlString t) v st) rt = better_exec bdb t rt"
    by simp
  show ?thesis
    by (simp only: a b) (simp add: db_exec_def better_exec_def recording_sqlite_def recording_better_def)
qed

section \<open>Properties of the dispatcher and its handles\<close>

lemma nextJobId_settle [simp]: "nextJobId (settle i v st) = nextJobId st"
  by (simp add: settle_def)

lemma nextJobId_fold_settle [simp]:
  "nextJobId (fold (\<lambda>e. settle (eid e) v) es st) = nextJobId st"
  by (induction es arbitrary: st) simp_all

lemma nextJobId_step_other:
  "(\<And>job. ev \<noteq> Submit job) \<Longrightarrow> nextJobId (step ev st) = nextJobId st"
  by (cases ev; cases "pc st")
     (auto simp: step_def shutdown_def Let_def run_immediate_def on_message_def on_error_def
        terminated_for_shutdown_def terminated_for_outsource_def interval_tick_def check_open_def
        outsource_def after_run_def drain_def worker_run_def
        split: list.splits option.splits sum.splits)

text \<open>
  C10. A \<^verbatim>\<open>submit\<close> on a closed dispatcher, or on one whose queue has reached
  \<^verbatim>\<open>maxQueue\<close>, is rejected at once and leaves the dispatcher as it was: no id is
  consumed, nothing is queued, no handle is touched. These are the only immediate
  rejections. The id counter moves only when a \<^verbatim>\<open>submit\<close> is accepted, so the next
  accepted \<^verbatim>\<open>submit\<close> gets the id the rejected one would have had.
\<close>

theorem submit_rejected_state_unchanged:
  "(closed st \<longrightarrow> submit job st = (Inl (Error ''DBDispatcher is closed''), st))
 \<and> (\<not> closed st \<and> maxQueue st \<le> enat (length (queue st)) \<longrightarrow>
      submit job st = (Inl (Error ''DB queue is full''), st))
 \<and> (submit job st = (Inl err, st') \<longrightarrow>
      st' = st \<and> (closed st \<or> maxQueue st \<le> enat (length (queue st))))
 \<and> (submit job st = (Inl err, st') \<and> submit job' st' = (Inr i, st'') \<longrightarrow>
      i = nextJobId st \<and> nextJobId st'' = nextJobId st + 1)
 \<and> ((\<forall>j. ev \<noteq> Submit j) \<longrightarrow> nextJobId (step ev st) = nextJobId st)"
  using nextJobId_step_other [of ev st]
  by (auto simp: submit_def split: if_splits)

theorem submit_rejected_state_unchanged_witness:
  "closed (shutdown (DBDispatcher 1 \<infinity> :: (string, nat) dispatcher))
 \<and> submit ''job'' (shutdown (DBDispatcher 1 \<infinity> :: (string, nat) dispatcher)) =
     (Inl (Error ''DBDispatcher is closed''), shutdown (DBDispatcher 1 \<infinity>))
 \<and> submit ''job'' (DBDispatcher 1 0 :: (string, nat) dispatcher) =
     (Inl (Error ''DB queue is full''), DBDispatcher 1 0)
 \<and> fst (submit ''next'' (snd (submit ''job'' (shutdown (DBDispatcher 1 \<infinity> :: (string, nat) dispatcher)))))
     = Inl (Error ''DBDispatcher is closed'')
 \<and> fst (submit ''job'' (DBDispatcher 1 3 :: (string, nat) dispatcher)) = Inr 1"
proof -
  let ?s = "shutdown (DBDispatcher 1 \<infinity> :: (string, nat) dispatcher)"
  let ?z = "DBDispatcher 1 0 :: (string, nat) dispatcher"
  have c: "closed ?s" by (simp add: shutdown_def DBDispatcher_def)
  have a: "submit ''job'' ?s = (Inl (Error ''DBDispatcher is closed''), ?s)"
    using submit_rejected_state_unchanged [where st = ?s and job = "''job''"] c by simp
  have b: "submit ''job'' ?z = (Inl (Error ''DB queue is full''), ?z)"
    using submit_rejected_state_unchanged [where st = ?z and job = "''job''"]
    by (simp add: DBDispatcher_def zero_enat_def)
  have d: "fst (submit ''job'' (DBDispatcher 1 3 :: (string, nat) dispatcher)) = Inr 1"
    by (simp add: submit_def DBDispatcher_def numeral_eq_enat)
  from a b c d show ?thesis
    using submit_rejected_state_unchanged [where st = ?s and job = "''next''"] by simp
qed

lemma getIdleWorker_Some:
  "getIdleWorker ws = Some i \<Longrightarrow> i < length ws \<and> \<not> busy (ws ! i) \<and> (\<forall>k<i. busy (ws ! k))"
proof (induction ws arbitrary: i)
  case Nil
  then show ?case by simp
next
  case (Cons w ws)
  show ?case
  proof (cases "busy w")
    case False
    with Cons.prems show ?thesis by simp
  next
    case True
    with Cons.prems obtain j where j: "getIdleWorker ws = Some j" "i = Suc j" by auto
    from Cons.IH [OF j(1)] True j(2) show ?thesis
      by (auto simp: less_Suc_eq_0_disj)
  qed
qed

lemma getIdleWorker_None: "getIdleWorker ws = None \<longleftrightarrow> (\<forall>w \<in> set ws. busy w)"
  by (induction ws) auto

lemma getIdleWorker_first:
  "i < length ws \<Longrightarrow> \<not> busy (ws ! i) \<Longrightarrow> \<forall>k<i. busy (ws ! k) \<Longrightarrow> getIdleWorker ws = Some i"
proof (induction ws arbitrary: i)
  case Nil
  then show ?case by simp
next
  case (Cons w ws)
  show ?case
  proof (cases i)
    case 0
    with Cons.prems show ?thesis by simp
  next
    case (Suc j)
    with Cons.prems have "busy w" by auto
    moreover from Cons.prems Suc have "getIdleWorker ws = Some j"
      by (intro Cons.IH) auto
    ultimately show ?thesis using Suc by simp
  qed
qed

lemma getIdleWorker_exists:
  "i < length ws \<Longrightarrow> \<not> busy (ws ! i) \<Longrightarrow> \<exists>k\<le>i. getIdleWorker ws = Some k"
proof (induction ws arbitrary: i)
  case Nil
  then show ?case by simp
next
  case (Cons w ws)
  show ?case
  proof (cases "busy w")
    case False
    then show ?thesis by simp
  next
    case True
    with Cons.prems obtain j where j: "i = Suc j" by (cases i) auto
    with Cons.prems have "\<exists>k\<le>j. getIdleWorker ws = Some k" by (intro Cons.IH) auto
    with True j show ?thesis by auto
  qed
qed

lemmas machine_defs =
  run_events_def step_def submit_def DBDispatcher_def outsource_def after_run_def drain_def
  on_message_def on_error_def shutdown_def run_immediate_def terminated_for_shutdown_def
  terminated_for_outsource_def interval_tick_def check_open_def worker_run_def settle_def
  shutdown_resolved_def Error_def



text \<open>
  C7 (amended). When the runtime of handle \<open>i\<close> signals an error, the handle rejects
  its inflight job, if any, with that error and clears \<^verbatim>\<open>inflight\<close> and \<^verbatim>\<open>busy\<close>;
  \<^verbatim>\<open>closed\<close> is left as it was. The dispatcher looks for the first handle that is
  not busy and does not look at \<^verbatim>\<open>closed\<close>, so after the error some handle up to
  \<open>i\<close> is found idle, and \<open>i\<close> itself when the handles before it are busy: the handle
  can be given the next job.
\<close>

theorem worker_error_leaves_handle_idle:
  assumes "pc st = Idle" and "i < length (workers st)"
  shows
  "\<not> busy (workers (step (WorkerError i err) st) ! i)
 \<and> inflight (workers (step (WorkerError i err) st) ! i) = None
 \<and> wclosed (workers (step (WorkerError i err) st) ! i) = wclosed (workers st ! i)
 \<and> pc (step (WorkerError i err) st) =
     (case inflight (workers st ! i) of None \<Rightarrow> Idle | Some e \<Rightarrow> AfterRun e (Inl err))
 \<and> (\<exists>k\<le>i. getIdleWorker (workers (step (WorkerError i err) st)) = Some k)
 \<and> ((\<forall>k<i. busy (workers st ! k)) \<longrightarrow>
      getIdleWorker (workers (step (WorkerError i err) st)) = Some i)"
proof -
  let ?st = "step (WorkerError i err) st"
  have len: "i < length (workers ?st)"
    using assms by (simp add: step_def on_error_def split: option.splits)
  have nb: "\<not> busy (workers ?st ! i)"
    and inf: "inflight (workers ?st ! i) = None"
    and cl: "wclosed (workers ?st ! i) = wclosed (workers st ! i)"
    using assms by (simp_all add: step_def on_error_def split: option.splits)
  have others: "busy (workers ?st ! k) = busy (workers st ! k)" if "k < i" for k
    using assms that by (simp add: step_def on_error_def split: option.splits)
  have pc: "pc ?st = (case inflight (workers st ! i) of None \<Rightarrow> Idle | Some e \<Rightarrow> AfterRun e (Inl err))"
    using assms by (simp add: step_def on_error_def split: option.splits)
  have ex: "\<exists>k\<le>i. getIdleWorker (workers ?st) = Some k"
    using getIdleWorker_exists [OF len nb] .
  have first: "getIdleWorker (workers ?st) = Some i" if "\<forall>k<i. busy (workers st ! k)"
  proof (rule getIdleWorker_first [OF len nb])
    show "\<forall>k<i. busy (workers ?st ! k)" using that others by simp
  qed
  from nb inf cl pc ex first show ?thesis by simp
qed

theorem worker_error_leaves_handle_idle_witness:
  "\<not> busy (workers (run_events [Submit ''a'', Continue, WorkerError 0 (Error ''worker crashed'')]
             (DBDispatcher 1 \<infinity> :: (string, nat) dispatcher)) ! 0)
 \<and> \<not> wclosed (workers (run_events [Submit ''a'', Continue, WorkerError 0 (Error ''worker crashed'')]
             (DBDispatcher 1 \<infinity> :: (string, nat) dispatcher)) ! 0)
 \<and> getIdleWorker (workers (run_events [Submit ''a'', Continue, WorkerError 0 (Error ''worker crashed'')]
             (DBDispatcher 1 \<infinity> :: (string, nat) dispatcher))) = Some 0"
proof -
  let ?st = "step Continue (step (Submit ''a'') (DBDispatcher 1 \<infinity> :: (string, nat) dispatcher))"
  have st: "pc ?st = Idle" "0 < length (workers ?st)" "\<not> wclosed (workers ?st ! 0)"
    by (simp_all add: machine_defs)
  show ?thesis
    using worker_error_leaves_handle_idle [OF st(1,2), where err = "Error ''worker crashed''"] st(3)
    by (simp add: run_events_def)
qed

text \<open>
  C7 as stated fails: with one handle, the job \<open>a\<close> is in flight when the runtime dies;
  \<open>a\<close> is rejected with the error, and the next job \<open>b\<close> is handed to the same handle.
\<close>

theorem errored_handle_reused_counterexample:
  "workers (run_events [Submit ''a'', Continue, WorkerError 0 (Error ''worker crashed''), Continue, Continue,
                        Submit ''b'', Continue]
             (DBDispatcher 1 \<infinity> :: (string, nat) dispatcher)) =
     [\<lparr>busy = True, wclosed = False, inflight = Some \<lparr>payload = ''b'', eid = 2\<rparr>\<rparr>]
 \<and> settled (run_events [Submit ''a'', Continue, WorkerError 0 (Error ''worker crashed''), Continue, Continue,
                        Submit ''b'', Continue]
             (DBDispatcher 1 \<infinity> :: (string, nat) dispatcher)) 1 = Some (Inl (Error ''worker crashed''))"
  by (simp add: machine_defs)

lemma queue_settle [simp]: "queue (settle i v st) = queue st"
  and pc_settle [simp]: "pc (settle i v st) = pc st"
  and maxQueue_settle [simp]: "maxQueue (settle i v st) = maxQueue st"
  and immediates_settle [simp]: "immediates (settle i v st) = immediates st"
  and workers_settle [simp]: "workers (settle i v st) = workers st"
  and calls_settle [simp]: "calls (settle i v st) = calls st"
  and terminating_settle [simp]: "terminating (settle i v st) = terminating st"
  and closed_settle [simp]: "closed (settle i v st) = closed st"
  and complete_settle [simp]: "workerShutdownComplete (settle i v st) = workerShutdownComplete st"
  by (simp_all add: settle_def)

lemma fold_settle_fields [simp]:
  "queue (fold (\<lambda>e. settle (eid e) v) es st) = queue st"
  "pc (fold (\<lambda>e. settle (eid e) v) es st) = pc st"
  "maxQueue (fold (\<lambda>e. settle (eid e) v) es st) = maxQueue st"
  "immediates (fold (\<lambda>e. settle (eid e) v) es st) = immediates st"
  "workers (fold (\<lambda>e. settle (eid e) v) es st) = workers st"
  "calls (fold (\<lambda>e. settle (eid e) v) es st) = calls st"
  "terminating (fold (\<lambda>e. settle (eid e) v) es st) = terminating st"
  "closed (fold (\<lambda>e. settle (eid e) v) es st) = closed st"
  "workerShutdownComplete (fold (\<lambda>e. settle (eid e) v) es st) = workerShutdownComplete st"
  by (induction es arbitrary: st) simp_all

lemma maxQueue_step [simp]: "maxQueue (step ev st) = maxQueue st"
  by (cases ev; cases "pc st")
     (auto simp: step_def submit_def shutdown_def Let_def run_immediate_def on_message_def
        on_error_def terminated_for_shutdown_def terminated_for_outsource_def interval_tick_def
        check_open_def outsource_def after_run_def drain_def worker_run_def
        split: list.splits option.splits sum.splits)

lemma maxQueue_run_events [simp]: "maxQueue (run_events evs st) = maxQueue st"
  unfolding run_events_def by (induction evs arbitrary: st) simp_all

lemma queue_ok_step: "queue_ok st \<Longrightarrow> queue_ok (step ev st)"
  by (cases ev; cases "pc st")
     (auto simp: queue_ok_def step_def submit_def shutdown_def Let_def run_immediate_def
        on_message_def on_error_def terminated_for_shutdown_def terminated_for_outsource_def
        interval_tick_def check_open_def outsource_def after_run_def drain_def worker_run_def
        split: list.splits option.splits sum.splits if_splits)

lemma list_all_update:
  "list_all P xs \<Longrightarrow> P x \<Longrightarrow> list_all P (xs[i := x])"
  by (auto simp: list_all_iff dest!: set_update_subset_insert [THEN subsetD])

lemma list_all_nth: "list_all P xs \<Longrightarrow> i < length xs \<Longrightarrow> P (xs ! i)"
  by (simp add: list_all_length)

lemma no_entries_step:
  assumes "no_entries st" and "maxQueue st = 0"
  shows "no_entries (step ev st)"
proof -
  from assms have pc: "pc st = Idle" and imm: "immediates st = []"
    and inf: "list_all (\<lambda>w. inflight w = None) (workers st)"
    by (simp_all add: no_entries_def)
  have nth: "inflight (workers st ! i) = None" if "i < length (workers st)" for i
    using list_all_nth [OF inf that] .
  show ?thesis
  proof (cases ev)
    case (Submit job)
    with assms pc show ?thesis by (simp add: step_def submit_def)
  next
    case Shutdown
    with pc imm inf show ?thesis by (simp add: step_def shutdown_def Let_def no_entries_def)
  next
    case Continue
    with assms pc show ?thesis by (simp add: step_def)
  next
    case Immediate
    with assms pc imm show ?thesis by (simp add: step_def run_immediate_def)
  next
    case (Message i mid reply)
    with assms pc nth show ?thesis by (simp add: step_def on_message_def)
  next
    case (WorkerError i err)
    with pc imm inf nth show ?thesis
      by (auto simp: step_def on_error_def no_entries_def intro!: list_all_update)
  next
    case (TerminatedForShutdown c i)
    with pc imm inf nth show ?thesis
      by (auto simp: step_def terminated_for_shutdown_def no_entries_def intro!: list_all_update)
  next
    case (TerminatedForOutsource k)
    with pc imm inf nth show ?thesis
      by (auto simp: step_def terminated_for_outsource_def check_open_def no_entries_def Let_def
            intro!: list_all_update)
  next
    case (IntervalTick c i)
    with pc imm inf show ?thesis by (auto simp: step_def interval_tick_def no_entries_def)
  qed
qed

lemma queue_inv_step: "queue_inv st \<Longrightarrow> queue_inv (step ev st)"
  using queue_ok_step [of st ev] no_entries_step [of st ev]
  by (auto simp: queue_inv_def)

lemma queue_inv_run_events: "queue_inv st \<Longrightarrow> queue_inv (run_events evs st)"
  unfolding run_events_def by (induction evs arbitrary: st) (simp_all add: queue_inv_step)

lemma queue_inv_DBDispatcher: "queue_inv (DBDispatcher n m)"
  by (simp add: queue_inv_def queue_ok_def no_entries_def DBDispatcher_def list_all_length)

lemma queue_inv_bound: "queue_inv st \<Longrightarrow> enat (length (queue st)) \<le> maxQueue st"
proof (cases "maxQueue st = 0")
  case True
  assume "queue_inv st"
  with True show ?thesis by (simp add: queue_inv_def no_entries_def queue_ok_def zero_enat_def)
next
  case False
  assume "queue_inv st"
  then have "length (queue st) \<le> 1" by (auto simp: queue_inv_def queue_ok_def split: if_splits)
  then have "enat (length (queue st)) \<le> 1" by (simp add: one_enat_def)
  also from False have "1 \<le> maxQueue st" by (simp add: ileI1 one_eSuc)
  finally show ?thesis .
qed

text \<open>
  The array \<^verbatim>\<open>#queue\<close> itself stays within \<^verbatim>\<open>maxQueue\<close> in every state a dispatcher
  can reach, and is empty whenever no synchronous code of the dispatcher runs: each
  entry pushed or unshifted is shifted out again by the last statement of
  \<^verbatim>\<open>#outsource\<close>.
\<close>

lemma queue_field_within_maxQueue:
  "enat (length (queue (run_events evs (DBDispatcher n m)))) \<le> m"
proof -
  have "queue_inv (run_events evs (DBDispatcher n m :: ('a, 'b) dispatcher))"
    by (intro queue_inv_run_events queue_inv_DBDispatcher)
  from queue_inv_bound [OF this] show ?thesis by (simp add: DBDispatcher_def)
qed

lemma queue_empty_at_rest:
  "pc (run_events evs (DBDispatcher n m)) = Idle \<Longrightarrow> queue (run_events evs (DBDispatcher n m)) = []"
proof -
  assume idle: "pc (run_events evs (DBDispatcher n m)) = Idle"
  have "queue_inv (run_events evs (DBDispatcher n m :: ('a, 'b) dispatcher))"
    by (intro queue_inv_run_events queue_inv_DBDispatcher)
  with idle show ?thesis by (simp add: queue_inv_def queue_ok_def)
qed

text \<open>
  So the check of \<^verbatim>\<open>submit\<close> against \<^verbatim>\<open>maxQueue\<close> always sees an empty queue: an
  open dispatcher with \<^verbatim>\<open>maxQueue\<close> of 1 or more accepts every \<^verbatim>\<open>submit\<close>.
\<close>

lemma submit_accepted_while_open:
  assumes "pc (run_events evs (DBDispatcher n m)) = Idle"
    and "\<not> closed (run_events evs (DBDispatcher n m))"
    and "m \<noteq> 0"
  shows "fst (submit job (run_events evs (DBDispatcher n m))) =
         Inr (nextJobId (run_events evs (DBDispatcher n m)))"
proof -
  have "maxQueue (run_events evs (DBDispatcher n m :: ('a, 'b) dispatcher)) = m"
    by (simp add: DBDispatcher_def)
  with assms queue_empty_at_rest [OF assms(1)] show ?thesis
    by (simp add: submit_def zero_enat_def [symmetric])
qed

text \<open>
  A job submitted while every handle is busy is accepted and waits in a
  \<^verbatim>\<open>setImmediate\<close> callback; nothing else changes, so the next one is accepted too, and
  any number of jobs can wait at the same time.
\<close>

lemma submit_while_busy_waits:
  assumes "pc st = Idle" and "queue st = []" and "\<not> closed st" and "maxQueue st \<noteq> 0"
    and "getIdleWorker (workers st) = None"
  shows "run_events [Submit job, Continue, Continue] st =
         st\<lparr>nextJobId := nextJobId st + 1,
            immediates := immediates st @ [\<lparr>payload = job, eid = nextJobId st\<rparr>]\<rparr>"
  using assms
  by (simp add: run_events_def step_def submit_def outsource_def drain_def
        zero_enat_def [symmetric])

lemma waiting_jobs_unbounded:
  assumes "pc st = Idle" and "queue st = []" and "\<not> closed st" and "maxQueue st \<noteq> 0"
    and "getIdleWorker (workers st) = None"
  shows "length (immediates
           (run_events (concat (replicate k [Submit job, Continue, Continue])) st)) =
         length (immediates st) + k
       \<and> queue (run_events (concat (replicate k [Submit job, Continue, Continue])) st) = []"
  using assms
proof (induction k arbitrary: st)
  case 0
  then show ?case by (simp add: run_events_def)
next
  case (Suc k)
  let ?st = "st\<lparr>nextJobId := nextJobId st + 1,
               immediates := immediates st @ [\<lparr>payload = job, eid = nextJobId st\<rparr>]\<rparr>"
  have one: "run_events [Submit job, Continue, Continue] st = ?st"
    using Suc.prems by (rule submit_while_busy_waits)
  have split: "run_events (concat (replicate (Suc k) [Submit job, Continue, Continue])) st =
               run_events (concat (replicate k [Submit job, Continue, Continue]))
                 (run_events [Submit job, Continue, Continue] st)"
    by (simp add: run_events_def)
  have "length (immediates
           (run_events (concat (replicate k [Submit job, Continue, Continue])) ?st)) =
         length (immediates ?st) + k
       \<and> queue (run_events (concat (replicate k [Submit job, Continue, Continue])) ?st) = []"
    using Suc.prems by (intro Suc.IH) simp_all
  then show ?case unfolding split one by simp
qed

text \<open>
  C5. The bound fails for the entries that wait. With one handle and
  \<^verbatim>\<open>maxQueue = 1\<close>, job 1 runs and jobs 2, 3 and 4 are submitted while it runs: each
  \<^verbatim>\<open>submit\<close> is accepted, none is rejected with \<^verbatim>\<open>DB queue is full\<close>, and the three
  entries wait at the same time, in \<^verbatim>\<open>setImmediate\<close> callbacks, while the queue the
  check reads is empty.
\<close>

theorem maxQueue_does_not_bound_waiting_entries:
  "fst (submit ''b'' (run_events [Submit ''a'', Continue]
                        (DBDispatcher 1 1 :: (string, nat) dispatcher))) = Inr 2
 \<and> fst (submit ''c'' (run_events [Submit ''a'', Continue, Submit ''b'', Continue, Continue]
                        (DBDispatcher 1 1 :: (string, nat) dispatcher))) = Inr 3
 \<and> fst (submit ''d'' (run_events [Submit ''a'', Continue, Submit ''b'', Continue, Continue,
                                  Submit ''c'', Continue, Continue]
                        (DBDispatcher 1 1 :: (string, nat) dispatcher))) = Inr 4
 \<and> immediates (run_events [Submit ''a'', Continue, Submit ''b'', Continue, Continue,
                           Submit ''c'', Continue, Continue, Submit ''d'', Continue, Continue]
                 (DBDispatcher 1 1 :: (string, nat) dispatcher)) =
     [\<lparr>payload = ''b'', eid = 2\<rparr>, \<lparr>payload = ''c'', eid = 3\<rparr>, \<lparr>payload = ''d'', eid = 4\<rparr>]
 \<and> queue (run_events [Submit ''a'', Continue, Submit ''b'', Continue, Continue,
                      Submit ''c'', Continue, Continue, Submit ''d'', Continue, Continue]
            (DBDispatcher 1 1 :: (string, nat) dispatcher)) = []
 \<and> workers (run_events [Submit ''a'', Continue, Submit ''b'', Continue, Continue,
                        Submit ''c'', Continue, Continue, Submit ''d'', Continue, Continue]
              (DBDispatcher 1 1 :: (string, nat) dispatcher)) =
     [\<lparr>busy = True, wclosed = False, inflight = Some \<lparr>payload = ''a'', eid = 1\<rparr>\<rparr>]
 \<and> (\<forall>k. settled (run_events [Submit ''a'', Continue, Submit ''b'', Continue, Continue,
                        Submit ''c'', Continue, Continue, Submit ''d'', Continue, Continue]
              (DBDispatcher 1 1 :: (string, nat) dispatcher)) k = None)"
  by (simp add: machine_defs one_enat_def)

lemmas handler_defs =
  submit_def shutdown_def Let_def run_immediate_def on_message_def on_error_def
  terminated_for_shutdown_def terminated_for_outsource_def interval_tick_def check_open_def
  outsource_def after_run_def drain_def worker_run_def

lemma filter_empty_length: "(filter P xs = []) = (\<forall>i<length xs. \<not> P (xs ! i))"
  by (simp add: filter_empty_conv Ball_set list_all_length)

lemma nth_update_if: "xs[i := x] ! j = (if i = j \<and> i < length xs then x else xs ! j)"
  by (cases "i < length xs") (auto simp: nth_list_update list_update_beyond)

lemma open_inv_step: "open_inv st \<Longrightarrow> open_inv (step ev st)"
  by (cases ev; cases "pc st")
     (auto simp: open_inv_def step_def handler_defs nth_update_if
        split: list.splits option.splits sum.splits if_splits)


lemma idle_inv_step:
  assumes "idle_inv st" and "open_inv st"
  shows "idle_inv (step ev st)"
proof (cases "pc st")
  case Idle
  show ?thesis
  proof (cases ev)
    case (TerminatedForOutsource k)
    have sub: "set (take k (terminating st) @ drop (Suc k) (terminating st)) \<subseteq> set (terminating st)"
      using set_take_subset [of k "terminating st"] set_drop_subset [of "Suc k" "terminating st"]
      by auto
    show ?thesis
    proof (cases "k < length (terminating st) \<and> terminating st ! k < length (workers st)")
      case False
      with Idle TerminatedForOutsource assms show ?thesis
        by (auto simp: step_def terminated_for_outsource_def)
    next
      case True
      then have "terminating st ! k \<in> set (terminating st)" by simp
      with assms(1) have nb: "\<not> busy (workers st ! (terminating st ! k))"
        by (auto simp: idle_inv_def)
      from Idle TerminatedForOutsource True assms(1) nb sub show ?thesis
        by (auto simp: idle_inv_def step_def terminated_for_outsource_def check_open_def Let_def
              nth_update_if)
    qed
  qed (use Idle assms in \<open>auto simp: idle_inv_def step_def handler_defs nth_update_if nth_append
          split: list.splits option.splits sum.splits if_splits\<close>)
next
  case (Outsource e)
  show ?thesis
  proof (cases ev)
    case Continue
    show ?thesis
    proof (cases "getIdleWorker (workers st)")
      case None
      with Outsource Continue assms show ?thesis
        by (auto simp: idle_inv_def step_def outsource_def)
    next
      case (Some i)
      from getIdleWorker_Some [OF Some] have i: "i < length (workers st)" "\<not> busy (workers st ! i)"
        by simp_all
      show ?thesis
      proof (cases "closed st")
        case True
        with Outsource Continue Some i assms show ?thesis
          by (auto simp: idle_inv_def step_def outsource_def check_open_def)
      next
        case False
        with assms(2) have "terminating st = []" "calls st = []"
          "\<forall>i<length (workers st). \<not> wclosed (workers st ! i)"
          by (simp_all add: open_inv_def)
        with Outsource Continue Some i False show ?thesis
          by (auto simp: idle_inv_def step_def outsource_def worker_run_def nth_update_if)
      qed
    qed
  qed (use Outsource assms in \<open>simp_all add: step_def\<close>)
next
  case (AfterRun e r)
  with assms show ?thesis
    by (cases ev) (auto simp: idle_inv_def step_def after_run_def split: sum.splits)
next
  case Drain
  with assms show ?thesis
    by (cases ev) (auto simp: idle_inv_def step_def drain_def split: list.splits)
qed


lemma closed_inv_step: "closed_inv st \<Longrightarrow> closed_inv (step ev st)"
  by (cases ev; cases "pc st")
     (auto simp: closed_inv_def step_def handler_defs nth_update_if nth_append filter_empty_length
        split: list.splits option.splits sum.splits if_splits)

lemma shutdown_inv_step: "shutdown_inv st \<Longrightarrow> shutdown_inv (step ev st)"
  by (simp add: shutdown_inv_def open_inv_step idle_inv_step closed_inv_step)

lemma shutdown_inv_run_events: "shutdown_inv st \<Longrightarrow> shutdown_inv (run_events evs st)"
  unfolding run_events_def by (induction evs arbitrary: st) (simp_all add: shutdown_inv_step)

lemma shutdown_inv_DBDispatcher: "shutdown_inv (DBDispatcher n m)"
  by (simp add: shutdown_inv_def open_inv_def idle_inv_def closed_inv_def DBDispatcher_def)

lemma queue_ok_run_events: "queue_ok st \<Longrightarrow> queue_ok (run_events evs st)"
  unfolding run_events_def by (induction evs arbitrary: st) (simp_all add: queue_ok_step)

lemma settled_fold_settle:
  "settled (fold (\<lambda>e. settle (eid e) v) es st) k =
     (if settled st k = None \<and> k \<in> eid ` set es then Some v else settled st k)"
  by (induction es arbitrary: st) (auto simp: settle_def)

lemma settled_step: "settled st k = Some v \<Longrightarrow> settled (step ev st) k = Some v"
  by (cases ev; cases "pc st")
     (auto simp: step_def handler_defs settle_def settled_fold_settle
        split: list.splits option.splits sum.splits if_splits)

lemma settled_run_events: "settled st k = Some v \<Longrightarrow> settled (run_events evs st) k = Some v"
  unfolding run_events_def by (induction evs arbitrary: st) (simp_all add: settled_step)

text \<open>
  \<^verbatim>\<open>shutdown()\<close> called in a state \<open>st0\<close> in which the invariants hold, as they do in
  every state reachable from the constructor: whenever, after any further events,
  all the promises of that call have resolved, every handle is closed and none is
  busy, and the queue is empty whenever no synchronous code of the dispatcher runs.
\<close>

lemma shutdown_resolved_handles_closed:
  assumes "pc st0 = Idle" and "shutdown_inv st0"
    and "shutdown_resolved (length (calls st0)) (run_events evs (shutdown st0))"
  shows "list_all (\<lambda>w. wclosed w \<and> \<not> busy w) (workers (run_events evs (shutdown st0)))"
    and "pc (run_events evs (shutdown st0)) = Idle \<Longrightarrow> queue (run_events evs (shutdown st0)) = []"
proof -
  let ?st = "run_events evs (shutdown st0)"
  let ?c = "length (calls st0)"
  from assms(1,2) have "shutdown_inv (step Shutdown st0)" by (intro shutdown_inv_step)
  with assms(1) have "shutdown_inv (shutdown st0)" by (simp add: step_def)
  then have inv: "shutdown_inv ?st" by (rule shutdown_inv_run_events)
  have "queue_ok (shutdown st0)"
    using assms(1) by (simp add: queue_ok_def shutdown_def Let_def)
  then have qok: "queue_ok ?st" by (rule queue_ok_run_events)
  from assms(3) have c: "?c < length (calls ?st)"
    and dn: "list_all (\<lambda>w. w = Done) (calls ?st ! ?c)"
    by (simp_all add: shutdown_resolved_def)
  from inv c have len: "length (calls ?st ! ?c) = length (workers ?st)"
    and cl: "\<And>i. i < length (workers ?st) \<Longrightarrow> calls ?st ! ?c ! i = Done
               \<Longrightarrow> wclosed (workers ?st ! i)"
    by (simp_all add: shutdown_inv_def closed_inv_def)
  from inv have idle: "\<And>i. i < length (workers ?st) \<Longrightarrow> wclosed (workers ?st ! i)
       \<Longrightarrow> \<not> busy (workers ?st ! i)"
    by (simp add: shutdown_inv_def idle_inv_def)
  show "list_all (\<lambda>w. wclosed w \<and> \<not> busy w) (workers ?st)"
    unfolding list_all_length
  proof (intro allI impI)
    fix i assume i: "i < length (workers ?st)"
    with dn len have "calls ?st ! ?c ! i = Done" by (simp add: list_all_length)
    with cl [OF i] have "wclosed (workers ?st ! i)" by simp
    with idle [OF i] show "wclosed (workers ?st ! i) \<and> \<not> busy (workers ?st ! i)" by simp
  qed
  show "queue ?st = []" if "pc ?st = Idle"
    using qok that by (simp add: queue_ok_def)
qed

text \<open>
  The loop of \<^verbatim>\<open>shutdown\<close> that rejects the queued entries never has an entry to
  reject: in every state a dispatcher can reach and \<^verbatim>\<open>shutdown\<close> can be called in, the
  queue is empty and the call settles no promise.
\<close>

lemma shutdown_rejects_nothing:
  assumes "pc (run_events evs (DBDispatcher n m)) = Idle"
  shows "settled (shutdown (run_events evs (DBDispatcher n m))) =
         settled (run_events evs (DBDispatcher n m))"
  using queue_empty_at_rest [OF assms] by (simp add: shutdown_def Let_def)

text \<open>
  C4. The entries that wait when \<^verbatim>\<open>shutdown\<close> is called are not rejected. With one
  handle, job 1 runs and job 2, accepted while it runs, waits in a \<^verbatim>\<open>setImmediate\<close>
  callback; the queue is empty. \<^verbatim>\<open>shutdown\<close> is called, job 1 finishes, the callback
  of job 2 runs on the closed dispatcher, terminates the handle and drops the entry.
  When the call of \<^verbatim>\<open>shutdown\<close> has resolved, the handle is closed and the queue is
  empty, job 1 is resolved, and the promise of job 2 is still pending: it was never
  rejected, and nothing is left that would settle it.
\<close>

theorem shutdown_leaves_waiting_entry_unsettled:
  "fst (submit ''b'' (run_events [Submit ''a'', Continue]
                        (DBDispatcher 1 \<infinity> :: (string, nat) dispatcher))) = Inr 2
 \<and> immediates (run_events [Submit ''a'', Continue, Submit ''b'', Continue, Continue]
                 (DBDispatcher 1 \<infinity> :: (string, nat) dispatcher)) = [\<lparr>payload = ''b'', eid = 2\<rparr>]
 \<and> queue (run_events [Submit ''a'', Continue, Submit ''b'', Continue, Continue]
            (DBDispatcher 1 \<infinity> :: (string, nat) dispatcher)) = []
 \<and> pc (run_events [Submit ''a'', Continue, Submit ''b'', Continue, Continue]
         (DBDispatcher 1 \<infinity> :: (string, nat) dispatcher)) = Idle
 \<and> shutdown_resolved 0
     (run_events [Submit ''a'', Continue, Submit ''b'', Continue, Continue, Shutdown,
                  Message 0 1 (Inr 5), Continue, Continue, Immediate, Continue,
                  TerminatedForOutsource 0, IntervalTick 0 0]
        (DBDispatcher 1 \<infinity> :: (string, nat) dispatcher))
 \<and> workers (run_events [Submit ''a'', Continue, Submit ''b'', Continue, Continue, Shutdown,
                  Message 0 1 (Inr 5), Continue, Continue, Immediate, Continue,
                  TerminatedForOutsource 0, IntervalTick 0 0]
        (DBDispatcher 1 \<infinity> :: (string, nat) dispatcher)) =
     [\<lparr>busy = False, wclosed = True, inflight = None\<rparr>]
 \<and> settled (run_events [Submit ''a'', Continue, Submit ''b'', Continue, Continue, Shutdown,
                  Message 0 1 (Inr 5), Continue, Continue, Immediate, Continue,
                  TerminatedForOutsource 0, IntervalTick 0 0]
        (DBDispatcher 1 \<infinity> :: (string, nat) dispatcher)) 1 = Some (Inr 5)
 \<and> settled (run_events [Submit ''a'', Continue, Submit ''b'', Continue, Continue, Shutdown,
                  Message 0 1 (Inr 5), Continue, Continue, Immediate, Continue,
                  TerminatedForOutsource 0, IntervalTick 0 0]
        (DBDispatcher 1 \<infinity> :: (string, nat) dispatcher)) 2 = None
 \<and> settled (run_events [Submit ''a'', Continue, Submit ''b'', Continue, Continue, Shutdown,
                  Message 0 1 (Inr 5), Continue, Continue, Immediate, Continue,
                  TerminatedForOutsource 0, IntervalTick 0 0]
        (DBDispatcher 1 \<infinity> :: (string, nat) dispatcher)) 2
       \<noteq> Some (Inl (Error ''DBDispatcher shutting down''))
 \<and> immediates (run_events [Submit ''a'', Continue, Submit ''b'', Continue, Continue, Shutdown,
                  Message 0 1 (Inr 5), Continue, Continue, Immediate, Continue,
                  TerminatedForOutsource 0, IntervalTick 0 0]
        (DBDispatcher 1 \<infinity> :: (string, nat) dispatcher)) = []
 \<and> queue (run_events [Submit ''a'', Continue, Submit ''b'', Continue, Continue, Shutdown,
                  Message 0 1 (Inr 5), Continue, Continue, Immediate, Continue,
                  TerminatedForOutsource 0, IntervalTick 0 0]
        (DBDispatcher 1 \<infinity> :: (string, nat) dispatcher)) = []"
  by (simp add: machine_defs)

text \<open>
  A handle that is busy when \<^verbatim>\<open>shutdown\<close> is called is terminated only by a later
  \<^verbatim>\<open>#outsource\<close>. Here no entry waits: the job finishes, and after a timer tick and
  every kind of exit event the handle is still open and the poll of the call is still
  pending.
\<close>

lemma busy_handle_never_terminated:
  "calls (run_events [Submit ''a'', Continue, Shutdown, Message 0 1 (Inr 5), Continue, Continue,
                      IntervalTick 0 0, Immediate, TerminatedForOutsource 0,
                      TerminatedForShutdown 0 0]
            (DBDispatcher 1 \<infinity> :: (string, nat) dispatcher)) = [[Polling]]
 \<and> workers (run_events [Submit ''a'', Continue, Shutdown, Message 0 1 (Inr 5), Continue, Continue,
                      IntervalTick 0 0, Immediate, TerminatedForOutsource 0,
                      TerminatedForShutdown 0 0]
            (DBDispatcher 1 \<infinity> :: (string, nat) dispatcher)) =
       [\<lparr>busy = False, wclosed = False, inflight = None\<rparr>]
 \<and> \<not> shutdown_resolved 0
       (run_events [Submit ''a'', Continue, Shutdown, Message 0 1 (Inr 5), Continue, Continue,
                    IntervalTick 0 0, Immediate, TerminatedForOutsource 0,
                    TerminatedForShutdown 0 0]
          (DBDispatcher 1 \<infinity> :: (string, nat) dispatcher))"
  by (simp add: machine_defs)

end
